theory Spec2Isabelle
  imports Main "HOL-Library.Word"
begin

section \<open>JavaScript values\<close>

text \<open>
  The gateway is TypeScript over loosely typed upstream JSON (\<open>any\<close>), so the embedding
  carries a small universe of JavaScript values. Numbers are the integer-valued doubles
  and \<open>NaN\<close> (heights, sizes, counts and the results of \<open>parseInt\<close>); arithmetic on them
  is exact, the rounding of doubles beyond \<open>2^53\<close> is not modelled. A \<open>Long\<close> of the
  Cassandra driver is a 64-bit two's complement word. An object is an association list
  of its own properties.
\<close>

datatype jsnum = NaN | Num int

datatype jsval =
    JUndefined
  | JNull
  | JBool bool
  | JNum jsnum
  | JStr string
  | JLong "64 word"
  | JArr "jsval list"
  | JObj "(string \<times> jsval) list"

type_synonym jsobj = "(string \<times> jsval) list"

datatype error = TypeError string | DriverError string | CqlBuilderError string

text \<open>\<open>!!v\<close>: \<open>undefined\<close>, \<open>null\<close>, \<open>false\<close>, \<open>0\<close>, \<open>NaN\<close> and \<open>''\<close> are falsy.\<close>

fun truthy :: "jsval \<Rightarrow> bool" where
  "truthy JUndefined = False"
| "truthy JNull = False"
| "truthy (JBool b) = b"
| "truthy (JNum NaN) = False"
| "truthy (JNum (Num i)) = (i \<noteq> 0)"
| "truthy (JStr s) = (s \<noteq> [])"
| "truthy (JLong l) = True"
| "truthy (JArr xs) = True"
| "truthy (JObj kvs) = True"

text \<open>\<open>typeof v === 'string'\<close>, \<open>Long.isLong(v)\<close> and \<open>Array.isArray(v)\<close>.\<close>

fun isString :: "jsval \<Rightarrow> bool" where
  "isString (JStr s) = True"
| "isString v = False"

fun isLong :: "jsval \<Rightarrow> bool" where
  "isLong (JLong l) = True"
| "isLong v = False"

fun isArray :: "jsval \<Rightarrow> bool" where
  "isArray (JArr xs) = True"
| "isArray v = False"

text \<open>\<open>a || b\<close> on values.\<close>

definition js_or :: "jsval \<Rightarrow> jsval \<Rightarrow> jsval" where
  "js_or a b = (if truthy a then a else b)"

text \<open>\<open>obj[key]\<close> on an object whose type is known (\<open>{ [k: string]: any }\<close>): a missing
  property reads \<open>undefined\<close>.\<close>

definition lookup :: "jsobj \<Rightarrow> string \<Rightarrow> jsval" where
  "lookup obj k = (case map_of obj k of Some v \<Rightarrow> v | None \<Rightarrow> JUndefined)"

text \<open>\<open>v[key]\<close> (or \<open>v.key\<close>) on a value of unknown type: reading a property of
  \<open>undefined\<close> or \<open>null\<close> throws a TypeError; a primitive, an array or a Long has none
  of the data properties the gateway reads by name.\<close>

fun get_prop :: "jsval \<Rightarrow> string \<Rightarrow> error + jsval" where
  "get_prop JUndefined k = Inl (TypeError ''Cannot read properties of undefined'')"
| "get_prop JNull k = Inl (TypeError ''Cannot read properties of null'')"
| "get_prop (JObj kvs) k = Inr (lookup kvs k)"
| "get_prop v k = Inr JUndefined"

subsection \<open>Printing and reading decimal numerals\<close>

definition digit_char :: "nat \<Rightarrow> char" where
  "digit_char d =
     (if d = 0 then CHR ''0'' else if d = 1 then CHR ''1'' else if d = 2 then CHR ''2''
      else if d = 3 then CHR ''3'' else if d = 4 then CHR ''4'' else if d = 5 then CHR ''5''
      else if d = 6 then CHR ''6'' else if d = 7 then CHR ''7'' else if d = 8 then CHR ''8''
      else CHR ''9'')"

fun digits :: "nat \<Rightarrow> string" where
  "digits n = (if n < 10 then [digit_char n] else digits (n div 10) @ [digit_char (n mod 10)])"

declare digits.simps [simp del]

definition show_int :: "int \<Rightarrow> string" where
  "show_int i = (if i < 0 then CHR ''-'' # digits (nat (- i)) else digits (nat i))"

definition is_digit :: "char \<Rightarrow> bool" where
  "is_digit c = ((48 :: nat) \<le> of_char c \<and> of_char c \<le> (57 :: nat))"

definition digit_val :: "char \<Rightarrow> nat" where
  "digit_val c = of_char c - (48 :: nat)"

text \<open>The value of the longest prefix of decimal digits, read left to right (\<open>0\<close> when
  there is none).\<close>

fun decimal_from :: "nat \<Rightarrow> string \<Rightarrow> nat" where
  "decimal_from a [] = a"
| "decimal_from a (c # s) =
     (if is_digit c then decimal_from (10 * a + digit_val c) s else a)"

definition decimal :: "string \<Rightarrow> nat" where
  "decimal s = decimal_from 0 s"

text \<open>\<open>v.toString()\<close> / \<open>String(v)\<close>.\<close>

fun intercalate :: "string \<Rightarrow> string list \<Rightarrow> string" where
  "intercalate sep [] = []"
| "intercalate sep [x] = x"
| "intercalate sep (x # y # ys) = x @ sep @ intercalate sep (y # ys)"

fun js_toString :: "jsval \<Rightarrow> string" where
  "js_toString JUndefined = ''undefined''"
| "js_toString JNull = ''null''"
| "js_toString (JBool b) = (if b then ''true'' else ''false'')"
| "js_toString (JNum NaN) = ''NaN''"
| "js_toString (JNum (Num i)) = show_int i"
| "js_toString (JStr s) = s"
| "js_toString (JLong l) = show_int (sint l)"
| "js_toString (JArr xs) =
     intercalate '','' (map (\<lambda>x. if x = JUndefined \<or> x = JNull then [] else js_toString x) xs)"
| "js_toString (JObj kvs) = ''[object Object]''"

subsection \<open>The rambda helpers the gateway uses\<close>

text \<open>\<open>R.isEmpty\<close>: \<open>false\<close> for \<open>undefined\<close>, \<open>null\<close> and every number; otherwise \<open>true\<close>
  for a falsy input, an object without keys and an array without elements. A Long is an
  object with the keys \<open>low\<close>, \<open>high\<close> and \<open>unsigned\<close>.\<close>

fun R_isEmpty :: "jsval \<Rightarrow> bool" where
  "R_isEmpty JUndefined = False"
| "R_isEmpty JNull = False"
| "R_isEmpty (JNum n) = False"
| "R_isEmpty (JBool b) = (\<not> b)"
| "R_isEmpty (JStr s) = (s = [])"
| "R_isEmpty (JLong l) = False"
| "R_isEmpty (JObj kvs) = (kvs = [])"
| "R_isEmpty (JArr xs) = (xs = [])"

text \<open>\<open>R.length\<close>: the length of an array or a string, \<open>NaN\<close> for anything else.\<close>

fun R_length :: "jsval \<Rightarrow> jsnum" where
  "R_length (JArr xs) = Num (int (length xs))"
| "R_length (JStr s) = Num (int (length s))"
| "R_length v = NaN"

section \<open>The type adapter: \<open>toLong\<close>\<close>

text \<open>
  Modelled from the spec: the driver's \<open>Long\<close> class (\<open>Long.fromNumber\<close>,
  \<open>Long.fromString\<close>, \<open>gt\<close>) is a dependency, not a file of the repository. The spec's
  rules are: non-empty string \<open>\<rightarrow>\<close> parsed as base-10; numeric \<open>\<rightarrow>\<close> direct cast; overflow
  unsupported. \<open>Long_fromNumber\<close> is the cast of a number (\<open>NaN\<close> is \<open>0\<close>, a value outside
  the signed 64-bit range is clamped to the nearest bound); \<open>Long_fromString\<close> reads an
  optional \<open>-\<close> and the decimal digits that follow, wrapping to 64 bits.
\<close>

definition Long_fromNumber :: "jsnum \<Rightarrow> 64 word" where
  "Long_fromNumber n =
     (case n of
        NaN \<Rightarrow> 0
      | Num i \<Rightarrow>
          if i \<le> - (2 ^ 63) then word_of_int (- (2 ^ 63))
          else if 2 ^ 63 \<le> i + 1 then word_of_int (2 ^ 63 - 1)
          else word_of_int i)"

definition Long_fromString :: "string \<Rightarrow> 64 word" where
  "Long_fromString s =
     (case s of
        [] \<Rightarrow> 0
      | c # cs \<Rightarrow> if c = CHR ''-'' then - word_of_nat (decimal cs) else word_of_nat (decimal s))"

text \<open>\<open>a.gt(b)\<close>: signed comparison.\<close>

definition Long_gt :: "64 word \<Rightarrow> 64 word \<Rightarrow> bool" where
  "Long_gt a b = (sint b < sint a)"

text \<open>The number a truthy argument that is neither a string nor a Long is taken as by
  \<open>Long.fromNumber\<close>: a number is itself, \<open>true\<close> is \<open>1\<close>. JavaScript coerces an array
  or a plain object through its string form, which is not a number for a plain object
  or an array of several elements, and is the element's number for an array such as
  \<open>[5]\<close>. The model takes all of them as \<open>NaN\<close>: no upstream numeric field is an array,
  and no statement below evaluates \<open>toLong\<close> on one.\<close>

fun numeric_arg :: "jsval \<Rightarrow> jsnum" where
  "numeric_arg (JNum n) = n"
| "numeric_arg (JBool b) = Num (if b then 1 else 0)"
| "numeric_arg v = NaN"

text \<open>
  \<^verbatim>\<open>
  export const toLong = (anyValue: any): CassandraTypes.Long =>
    Long.isLong(anyValue) ? anyValue
      : !anyValue && typeof anyValue !== 'string' ? Long.fromNumber(0)
      : typeof anyValue === 'string'
      ? Long.fromString(R.isEmpty(anyValue) ? '0' : anyValue)
      : Long.fromNumber(anyValue);
  \<close>
\<close>

definition toLong :: "jsval \<Rightarrow> 64 word" where
  "toLong anyValue =
     (case anyValue of
        JLong l \<Rightarrow> l
      | _ \<Rightarrow>
          if \<not> truthy anyValue \<and> \<not> isString anyValue then Long_fromNumber (Num 0)
          else (case anyValue of
                  JStr s \<Rightarrow> Long_fromString (if R_isEmpty anyValue then ''0'' else s)
                | _ \<Rightarrow> Long_fromNumber (numeric_arg anyValue)))"

section \<open>The highest persisted block: \<open>getMaxHeightBlock\<close>\<close>

text \<open>
  \<^verbatim>\<open>
  export const getMaxHeightBlock = async (): Promise<[string, CassandraTypes.Long]> => {
    const response = await cassandraClient.execute(
      `SELECT height,indep_hash FROM ${KEYSPACE}.block_gql limit 1;`);
    const row = response.rows[0];
    if (row) { return [row['indep_hash'], row['height']]; }
    else { return ['', toLong(-1)]; }
  };
  \<close>
  The store's answer is the argument: the rows of the response, or the error the awaited
  \<open>execute\<close> rejects with, which the function passes on. A row is an object, hence truthy;
  \<open>rows[0]\<close> of an empty list is \<open>undefined\<close>.
\<close>

definition getMaxHeightBlock :: "error + jsobj list \<Rightarrow> error + (jsval \<times> jsval)" where
  "getMaxHeightBlock response =
     (case response of
        Inl e \<Rightarrow> Inl e
      | Inr rows \<Rightarrow>
          (case rows of
             [] \<Rightarrow> Inr (JStr '''', JLong (toLong (JNum (Num (- 1)))))
           | row # rest \<Rightarrow> Inr (lookup row ''indep_hash'', lookup row ''height'')))"

section \<open>The row projector: \<open>makeTxImportQuery\<close>\<close>

text \<open>
  \<open>KEYSPACE\<close> is imported from the module \<open>constants\<close>; the text of a statement takes
  it as the parameter \<open>ks\<close>. Every statement of the projector is an
  \<open>INSERT\<close> whose text the source builds from a table name and a list of column names:
  \<^verbatim>\<open>
  `INSERT INTO ${KEYSPACE}.tx_tag (${txTagKeys.join(', ')})
     VALUES (${txTagKeys.map(() => '?').join(', ')})`
  \<close>
  The embedding keeps the table and the columns, and \<open>cql\<close> renders the text.
\<close>

record insert_query =
  table :: string
  columns :: "string list"
  if_not_exists :: bool

definition cql :: "string \<Rightarrow> insert_query \<Rightarrow> string" where
  "cql ks q =
     ''INSERT INTO '' @ ks @ ''.'' @ table q @ '' ('' @ intercalate '', '' (columns q)
       @ '') VALUES ('' @ intercalate '', '' (map (\<lambda>k. ''?'') (columns q)) @ '')''
       @ (if if_not_exists q then '' IF NOT EXISTS'' else [])"

text \<open>\<open>cassandraClient.execute(query, params, { prepare, executionProfile })\<close>: the
  projector returns the list of these calls. \<open>params\<close> is an array (positional) or an
  object (named parameters).\<close>

record statement =
  query :: insert_query
  params :: jsval
  prepare :: bool
  executionProfile :: string

definition execute :: "insert_query \<Rightarrow> jsval \<Rightarrow> statement" where
  "execute q ps = \<lparr>query = q, params = ps, prepare = True, executionProfile = ''full''\<rparr>"

text \<open>The value a statement binds to a column: by position for an array of parameters,
  by name for an object; an \<open>undefined\<close> named parameter is unset.\<close>

definition bound :: "statement \<Rightarrow> string \<Rightarrow> jsval option" where
  "bound s col =
     (case params s of
        JArr vs \<Rightarrow> map_of (zip (columns (query s)) vs) col
      | JObj kvs \<Rightarrow>
          (if col \<in> set (columns (query s)) \<and> lookup kvs col \<noteq> JUndefined
           then Some (lookup kvs col) else None)
      | _ \<Rightarrow> None)"

definition txTagKeys :: "string list" where
  "txTagKeys = [''tx_id'', ''tag_index'', ''next_tag_index'', ''name'', ''value'']"

definition txOffsetKeys :: "string list" where
  "txOffsetKeys = [''tx_id'', ''size'', ''offset'']"

definition transactionKeys :: "string list" where
  "transactionKeys =
     [''block_height'', ''block_hash'', ''block_timestamp'', ''data_root'', ''data_size'',
      ''data_tree'', ''format'', ''id'', ''last_tx'', ''owner'', ''quantity'', ''reward'',
      ''signature'', ''target'', ''tag_count'']"

definition transactionInsertQuery :: "string list \<Rightarrow> insert_query" where
  "transactionInsertQuery nonNilTxKeys =
     \<lparr>table = ''transaction'', columns = nonNilTxKeys, if_not_exists = False\<rparr>"

definition txOffsetInsertQuery :: insert_query where
  "txOffsetInsertQuery = \<lparr>table = ''tx_offset'', columns = txOffsetKeys, if_not_exists = False\<rparr>"

definition txTagsInsertQuery :: insert_query where
  "txTagsInsertQuery = \<lparr>table = ''tx_tag'', columns = txTagKeys, if_not_exists = False\<rparr>"

definition blockByTxIdInsertQuery :: insert_query where
  "blockByTxIdInsertQuery =
     \<lparr>table = ''block_by_tx_id'', columns = [''tx_id'', ''block_height'', ''block_hash''],
      if_not_exists = True\<rparr>"

text \<open>The tuples of the \<open>tags\<close> case: \<open>new Tuple(tag['name'] || '', tag['value'] || '')\<close>
  for each element, an \<open>undefined\<close> element defaulting to \<open>{}\<close>; the set that collects them
  is kept as the list of its insertions, a tuple as a two-element array.\<close>

fun tagTuples :: "jsval list \<Rightarrow> error + jsval list" where
  "tagTuples [] = Inr []"
| "tagTuples (tag # tags) =
     (let t = (if tag = JUndefined then JObj [] else tag) in
      case get_prop t ''name'' of
        Inl e \<Rightarrow> Inl e
      | Inr n \<Rightarrow>
          (case get_prop t ''value'' of
             Inl e \<Rightarrow> Inl e
           | Inr v \<Rightarrow>
               (case tagTuples tags of
                  Inl e \<Rightarrow> Inl e
                | Inr rest \<Rightarrow> Inr (JArr [js_or n (JStr ''''), js_or v (JStr '''')] # rest))))"

text \<open>
  \<open>transformTxKey(key, txData, blockData)\<close>: the \<open>switch\<close> of the source, case by case in
  its order; an unknown key is logged and yields \<open>undefined\<close>.
\<close>

definition transformTxKey :: "string \<Rightarrow> jsobj \<Rightarrow> jsobj \<Rightarrow> error + jsval" where
  "transformTxKey key txData blockData =
     (if key = ''block_timestamp'' then Inr (JLong (toLong (lookup blockData ''timestamp'')))
      else if key = ''block_height'' then Inr (JLong (toLong (lookup blockData ''height'')))
      else if key = ''block_hash'' then Inr (lookup blockData ''indep_hash'')
      else if key = ''data_tree'' then
        Inr (if truthy (lookup txData key) \<and> isArray (lookup txData key)
             then lookup txData key else JArr [])
      else if key = ''tag_count'' then
        Inr (if \<not> truthy (lookup txData ''tags'') \<or> R_isEmpty (lookup txData ''tags'')
             then JNum (Num 0) else JNum (R_length (lookup txData ''tags'')))
      else if key = ''tags'' then
        (case (if truthy (lookup txData key) \<and> isArray (lookup txData key)
               then lookup txData key else JArr []) of
           JArr tags \<Rightarrow>
             (if length tags = 0 then Inr (JArr [])
              else (case tagTuples tags of Inl e \<Rightarrow> Inl e | Inr tagSet \<Rightarrow> Inr (JArr tagSet)))
         | _ \<Rightarrow> Inr (JArr []))
      else if key \<in> set [''data_root'', ''id'', ''last_tx'', ''owner'', ''signature'', ''target''] then
        Inr (if truthy (lookup txData key)
             then (if isString (lookup txData key) then lookup txData key
                   else JStr (js_toString (lookup txData key)))
             else JStr '''')
      else if key \<in> set [''data_size'', ''quantity'', ''reward''] then
        Inr (JLong (toLong (lookup txData key)))
      else if key = ''format'' then Inr (lookup txData key)
      else Inr JUndefined)"

text \<open>
  \<^verbatim>\<open>
  const transformTxOffsetKeys = (txObj: any): TxOffset => {
    const txOffset = txObj['tx_offset'] ? txObj['tx_offset'] : {};
    const txOffsetObj = {} as TxOffset;
    txOffsetObj['tx_id'] = txObj['id'] || '';
    txOffsetObj['size'] = toLong(txOffset['size'] || 0);
    txOffsetObj['offset'] = toLong(txOffset['offset'] || -1);
    return txOffsetObj;
  };
  \<close>
\<close>

definition transformTxOffsetKeys :: "jsobj \<Rightarrow> error + jsval" where
  "transformTxOffsetKeys txObj =
     (let txOffset = (if truthy (lookup txObj ''tx_offset'') then lookup txObj ''tx_offset'' else JObj []) in
      case get_prop txOffset ''size'' of
        Inl e \<Rightarrow> Inl e
      | Inr sz \<Rightarrow>
          (case get_prop txOffset ''offset'' of
             Inl e \<Rightarrow> Inl e
           | Inr off \<Rightarrow>
               Inr (JObj [(''tx_id'', js_or (lookup txObj ''id'') (JStr '''')),
                          (''size'', JLong (toLong (js_or sz (JNum (Num 0))))),
                          (''offset'', JLong (toLong (js_or off (JNum (Num (- 1))))))])))"

text \<open>
  \<^verbatim>\<open>
  const transformTag = (tag: UpstreamTag, txObj: any, index: number, nextIndex?: number): Tag => {
    const tagObj = {} as Tag;
    tagObj['tag_index'] = index;
    tagObj['next_tag_index'] = nextIndex || undefined;
    tagObj['tx_id'] = txObj['id'];
    tagObj['name'] = tag.name || '';
    tagObj['value'] = tag.value || '';
    return tagObj;
  };
  \<close>
  \<open>tag.name\<close> throws when the array element is \<open>undefined\<close> or \<open>null\<close>.
\<close>

definition transformTag :: "jsval \<Rightarrow> jsobj \<Rightarrow> nat \<Rightarrow> jsval \<Rightarrow> error + jsval" where
  "transformTag tag txObj index nextIndex =
     (case get_prop tag ''name'' of
        Inl e \<Rightarrow> Inl e
      | Inr n \<Rightarrow>
          (case get_prop tag ''value'' of
             Inl e \<Rightarrow> Inl e
           | Inr v \<Rightarrow>
               Inr (JObj [(''tag_index'', JNum (Num (int index))),
                          (''next_tag_index'', js_or nextIndex JUndefined),
                          (''tx_id'', lookup txObj ''id''),
                          (''name'', js_or n (JStr '''')),
                          (''value'', js_or v (JStr ''''))])))"

text \<open>
  The \<open>reduce\<close> over \<open>transactionKeys\<close>: the accumulator is the parameter array together
  with the two variables the callback assigns, \<open>nonNilTxKeys\<close> and \<open>dataSize\<close>.
  \<^verbatim>\<open>
  const nextVal = transformTxKey(key, tx, blockData);
  if (key === 'data_size') { dataSize = nextVal; }
  if (nextVal && !R.isEmpty(nextVal)) { paramz.push(nextVal); nonNilTxKeys.push(key); }
  return paramz;
  \<close>
\<close>

type_synonym tx_acc = "jsval list \<times> string list \<times> jsval"

definition txReduceStep :: "jsobj \<Rightarrow> jsobj \<Rightarrow> tx_acc \<Rightarrow> string \<Rightarrow> error + tx_acc" where
  "txReduceStep tx blockData acc key =
     (case acc of (paramz, nonNilTxKeys, dataSize) \<Rightarrow>
        (case transformTxKey key tx blockData of
           Inl e \<Rightarrow> Inl e
         | Inr nextVal \<Rightarrow>
             (let dataSize' = (if key = ''data_size'' then nextVal else dataSize) in
              if truthy nextVal \<and> \<not> R_isEmpty nextVal
              then Inr (paramz @ [nextVal], nonNilTxKeys @ [key], dataSize')
              else Inr (paramz, nonNilTxKeys, dataSize'))))"

fun reduce_err :: "('a \<Rightarrow> 'b \<Rightarrow> error + 'a) \<Rightarrow> 'a \<Rightarrow> 'b list \<Rightarrow> error + 'a" where
  "reduce_err f acc [] = Inr acc"
| "reduce_err f acc (x # xs) = (case f acc x of Inl e \<Rightarrow> Inl e | Inr acc' \<Rightarrow> reduce_err f acc' xs)"

text \<open>
  \<open>(tx.tags || []).map((tag, index) => execute(txTagsInsertQuery, transformTag(tag, tx,
  index, index + 1 < tx.tags.length ? index + 1 : undefined), ...))\<close>: \<open>len\<close> is
  \<open>tx.tags.length\<close>, \<open>index\<close> the position of the first element of the remaining list.
\<close>

fun tagStatements :: "jsobj \<Rightarrow> nat \<Rightarrow> nat \<Rightarrow> jsval list \<Rightarrow> error + statement list" where
  "tagStatements tx len index [] = Inr []"
| "tagStatements tx len index (tag # tags) =
     (case transformTag tag tx index
             (if index + 1 < len then JNum (Num (int (index + 1))) else JUndefined) of
        Inl e \<Rightarrow> Inl e
      | Inr p \<Rightarrow>
          (case tagStatements tx len (index + 1) tags of
             Inl e \<Rightarrow> Inl e
           | Inr rest \<Rightarrow> Inr (execute txTagsInsertQuery p # rest)))"

text \<open>\<open>(tx.tags || [])\<close> is an array, or anything else truthy, on which \<open>.map\<close> is not a
  function.\<close>

definition tagPart :: "jsobj \<Rightarrow> error + statement list" where
  "tagPart tx =
     (case js_or (lookup tx ''tags'') (JArr []) of
        JArr tags \<Rightarrow> tagStatements tx (length tags) 0 tags
      | _ \<Rightarrow> Inl (TypeError ''(tx.tags || []).map is not a function''))"

text \<open>\<open>dataSize && dataSize.gt(0) ? [execute(txOffsetInsertQuery, transformTxOffsetKeys(tx),
  ...)] : []\<close>; \<open>gt\<close> exists on a Long only.\<close>

definition offsetPart :: "jsobj \<Rightarrow> jsval \<Rightarrow> error + statement list" where
  "offsetPart tx dataSize =
     (if truthy dataSize then
        (case dataSize of
           JLong l \<Rightarrow>
             (if Long_gt l (Long_fromNumber (Num 0)) then
                (case transformTxOffsetKeys tx of
                   Inl e \<Rightarrow> Inl e
                 | Inr p \<Rightarrow> Inr [execute txOffsetInsertQuery p])
              else Inr [])
         | _ \<Rightarrow> Inl (TypeError ''dataSize.gt is not a function''))
      else Inr [])"

definition makeTxImportQuery :: "jsobj \<Rightarrow> jsobj \<Rightarrow> error + statement list" where
  "makeTxImportQuery tx blockData =
     (case reduce_err (txReduceStep tx blockData) ([], [], JUndefined) transactionKeys of
        Inl e \<Rightarrow> Inl e
      | Inr (txInsertParams, nonNilTxKeys, dataSize) \<Rightarrow>
          (case tagPart tx of
             Inl e \<Rightarrow> Inl e
           | Inr tagInserts \<Rightarrow>
               (case offsetPart tx dataSize of
                  Inl e \<Rightarrow> Inl e
                | Inr offsetInserts \<Rightarrow>
                    Inr ([execute blockByTxIdInsertQuery
                            (JArr [lookup tx ''id'', lookup blockData ''height'',
                                   lookup blockData ''indep_hash'']),
                          execute (transactionInsertQuery nonNilTxKeys) (JArr txInsertParams)]
                         @ tagInserts @ offsetInserts))))"

subsection \<open>Vocabulary for the projector's claims\<close>

text \<open>The tag list of a transaction: the elements of \<open>tx.tags\<close> when it is an array, none
  when it is missing or falsy.\<close>

definition tagsOf :: "jsobj \<Rightarrow> jsval list option" where
  "tagsOf tx =
     (case lookup tx ''tags'' of
        JArr tags \<Rightarrow> Some tags
      | v \<Rightarrow> if truthy v then None else Some [])"

text \<open>A tag is an object (\<open>UpstreamTag\<close>); at least it is neither \<open>undefined\<close> nor \<open>null\<close>.\<close>

definition isTag :: "jsval \<Rightarrow> bool" where
  "isTag t = (t \<noteq> JUndefined \<and> t \<noteq> JNull)"

definition inserts_into :: "string \<Rightarrow> statement list \<Rightarrow> statement list" where
  "inserts_into tbl stmts = filter (\<lambda>s. table (query s) = tbl) stmts"

text \<open>The filter of the \<open>reduce\<close>: \<open>nextVal && !R.isEmpty(nextVal)\<close>.\<close>

definition keeps :: "jsval \<Rightarrow> bool" where
  "keeps nextVal = (truthy nextVal \<and> \<not> R_isEmpty nextVal)"

subsection \<open>Example inputs\<close>

definition two_tags :: "jsval list" where
  "two_tags = [JObj [(''name'', JStr ''App''), (''value'', JStr ''X'')],
               JObj [(''name'', JStr ''Type''), (''value'', JStr ''tx'')]]"

definition tx_two_tags :: jsobj where
  "tx_two_tags = [(''id'', JStr ''tx1''), (''data_size'', JStr ''1024''), (''tags'', JArr two_tags)]"

definition tx_no_tags :: jsobj where
  "tx_no_tags = [(''id'', JStr ''tx0''), (''data_size'', JStr ''0''), (''tags'', JArr [])]"

definition block_5 :: jsobj where
  "block_5 = [(''height'', JNum (Num 5)), (''indep_hash'', JStr ''h5''),
              (''timestamp'', JNum (Num 1600000000))]"

section \<open>The worker pool's progress counter: \<open>getTxsInFlight\<close>\<close>

text \<open>
  \<^verbatim>\<open>
  export const txInFlight: Record<string, number> = {};
  const numberOr0 = (n): number => (Number.isNaN(n) ? 0 : n);
  export const getTxsInFlight = (): number =>
    Object.values(txInFlight).reduce((a, b) => numberOr0(a) + numberOr0(b));
  \<close>
  The map is the list of its entries in the order \<open>Object.values\<close> reads them. Its values
  are numbers: a worker's payload, or \<open>Number.parseInt\<close> of it.
\<close>

definition Number_isNaN :: "jsnum \<Rightarrow> bool" where
  "Number_isNaN n = (n = NaN)"

definition numberOr0 :: "jsnum \<Rightarrow> jsnum" where
  "numberOr0 n = (if Number_isNaN n then Num 0 else n)"

text \<open>\<open>a + b\<close> on numbers.\<close>

fun js_add :: "jsnum \<Rightarrow> jsnum \<Rightarrow> jsnum" where
  "js_add (Num a) (Num b) = Num (a + b)"
| "js_add a b = NaN"

text \<open>\<open>array.reduce(f)\<close> without an initial value: the first element starts the
  accumulation and \<open>f\<close> is first called on the second; on an empty array it throws.\<close>

fun reduce_noinit :: "('a \<Rightarrow> 'a \<Rightarrow> 'a) \<Rightarrow> 'a list \<Rightarrow> error + 'a" where
  "reduce_noinit f [] = Inl (TypeError ''Reduce of empty array with no initial value'')"
| "reduce_noinit f (x # xs) = Inr (foldl f x xs)"

definition Object_values :: "(string \<times> 'a) list \<Rightarrow> 'a list" where
  "Object_values obj = map snd obj"

definition getTxsInFlight :: "(string \<times> jsnum) list \<Rightarrow> error + jsnum" where
  "getTxsInFlight txInFlight =
     reduce_noinit (\<lambda>a b. js_add (numberOr0 a) (numberOr0 b)) (Object_values txInFlight)"

text \<open>The sum the spec names: over the values, \<open>NaN\<close> counted as \<open>0\<close>.\<close>

definition nanSafeSum :: "jsnum list \<Rightarrow> int" where
  "nanSafeSum ns = sum_list (map (\<lambda>n. case n of NaN \<Rightarrow> 0 | Num i \<Rightarrow> i) ns)"

section \<open>Start-up configuration: \<open>DEVELOPMENT_SYNC_LENGTH\<close>\<close>

text \<open>
  \<open>Number.parseInt(string)\<close> without a radix is ECMAScript's: leading white space is
  skipped, a sign is read, a prefix \<open>0x\<close> or \<open>0X\<close> selects radix 16 (otherwise 10), and the
  longest prefix of digits of that radix is the value; without any digit the result is
  \<open>NaN\<close>.
\<close>

definition is_space :: "char \<Rightarrow> bool" where
  "is_space c = (of_char c \<in> set [9, 10, 11, 12, 13, 32 :: nat])"

definition digit_of :: "nat \<Rightarrow> char \<Rightarrow> nat option" where
  "digit_of radix c =
     (let n = (of_char c :: nat);
          d = (if 48 \<le> n \<and> n \<le> 57 then Some (n - 48)
               else if 97 \<le> n \<and> n \<le> 122 then Some (n - 87)
               else if 65 \<le> n \<and> n \<le> 90 then Some (n - 55)
               else None)
      in case d of None \<Rightarrow> None | Some v \<Rightarrow> if v < radix then Some v else None)"

text \<open>\<open>seen\<close> is \<open>None\<close> until a digit has been read.\<close>

fun parse_digits :: "nat \<Rightarrow> nat option \<Rightarrow> string \<Rightarrow> nat option" where
  "parse_digits radix seen [] = seen"
| "parse_digits radix seen (c # cs) =
     (case digit_of radix c of
        None \<Rightarrow> seen
      | Some d \<Rightarrow> parse_digits radix (Some (radix * (case seen of None \<Rightarrow> 0 | Some a \<Rightarrow> a) + d)) cs)"

definition Number_parseInt :: "string \<Rightarrow> jsnum" where
  "Number_parseInt str =
     (let s = dropWhile is_space str;
          neg = (case s of c # cs \<Rightarrow> c = CHR ''-'' | [] \<Rightarrow> False);
          s1 = (case s of c # cs \<Rightarrow> if c = CHR ''-'' \<or> c = CHR ''+'' then cs else s | [] \<Rightarrow> s);
          hex = (take 2 s1 = ''0x'' \<or> take 2 s1 = ''0X'');
          m = (if hex then parse_digits 16 None (drop 2 s1) else parse_digits 10 None s1)
      in case m of None \<Rightarrow> NaN | Some v \<Rightarrow> Num (if neg then - int v else int v))"

text \<open>
  \<^verbatim>\<open>
  const developmentSyncLength: number | undefined =
    !process.env["DEVELOPMENT_SYNC_LENGTH"] || R.isEmpty(process.env["DEVELOPMENT_SYNC_LENGTH"])
      ? undefined
      : Number.parseInt(process.env["DEVELOPMENT_SYNC_LENGTH"] as string);
  \<close>
  An environment variable is a string, or \<open>undefined\<close> when it is not set.
\<close>

definition env_value :: "string option \<Rightarrow> jsval" where
  "env_value v = (case v of None \<Rightarrow> JUndefined | Some s \<Rightarrow> JStr s)"

definition developmentSyncLength :: "string option \<Rightarrow> jsval" where
  "developmentSyncLength env =
     (if \<not> truthy (env_value env) \<or> R_isEmpty (env_value env) then JUndefined
      else (case env of Some s \<Rightarrow> JNum (Number_parseInt s) | None \<Rightarrow> JUndefined))"

text \<open>\<open>v === n\<close> for a number \<open>n\<close>: strict equality holds between equal numbers only, and
  \<open>NaN\<close> is equal to nothing, itself included.\<close>

fun strict_eq_number :: "jsval \<Rightarrow> jsnum \<Rightarrow> bool" where
  "strict_eq_number (JNum (Num i)) (Num j) = (i = j)"
| "strict_eq_number v n = False"

text \<open>
  What the module does next, when it is loaded:
  \<^verbatim>\<open>
  // eslint-disable-next-line use-isnan
  if (developmentSyncLength === Number.NaN) {
    console.error("Development sync range variable produced, illegal value NaN");
    process.exit(1);
  }
  \<close>
\<close>

datatype startup =
    Exit nat string
  | Running jsval

definition checkDevelopmentSyncLength :: "string option \<Rightarrow> startup" where
  "checkDevelopmentSyncLength env =
     (if strict_eq_number (developmentSyncLength env) NaN
      then Exit 1 ''Development sync range variable produced, illegal value NaN''
      else Running (developmentSyncLength env))"

text \<open>Later, in \<open>startSync\<close>, the truncation of the list of unsynced blocks:
  \<^verbatim>\<open>
  if (developmentSyncLength) {
    unsyncedBlocks = R.slice(developmentSyncLength, unsyncedBlocks.length, unsyncedBlocks);
  }
  \<close>
  (\<open>R.slice\<close> with a non-negative start below the length drops that many elements.)\<close>

definition truncateUnsynced :: "jsval \<Rightarrow> 'a list \<Rightarrow> 'a list" where
  "truncateUnsynced dsl unsyncedBlocks =
     (if truthy dsl then
        (case dsl of
           JNum (Num k) \<Rightarrow>
             if 0 \<le> k then drop (nat k) unsyncedBlocks
             else drop (length unsyncedBlocks - nat (- k)) unsyncedBlocks
         | _ \<Rightarrow> unsyncedBlocks)
      else unsyncedBlocks)"

section \<open>The query builder: \<open>generateTransactionQuery\<close>\<close>

text \<open>
  Modelled from the spec: the driver's \<open>TimeUuid\<close> class is a dependency, not a file of
  the repository; the spec calls \<open>since\<close> a time-based UUID string, converted to unix
  time. A time-based (version 1) UUID is written
  \<open>llllllll-mmmm-Vhhh-cccc-nnnnnnnnnnnn\<close> in hexadecimal; its timestamp is the 60-bit
  number \<open>hhh mmmm llllllll\<close>, counting intervals of 100 nanoseconds since
  1582-10-15, which is 12219292800000 milliseconds before the unix epoch.
  \<open>TimeUuid.fromString\<close> throws on a string that is not of this form.
\<close>

record timeuuid =
  time_low :: nat
  time_mid :: nat
  time_hi_and_version :: nat

definition hex_number :: "string \<Rightarrow> nat option" where
  "hex_number s = (if list_all (\<lambda>c. digit_of 16 c \<noteq> None) s then parse_digits 16 None s else None)"

definition TimeUuid_fromString :: "string \<Rightarrow> error + timeuuid" where
  "TimeUuid_fromString s =
     (if length s = 36 \<and> s ! 8 = CHR ''-'' \<and> s ! 13 = CHR ''-'' \<and> s ! 18 = CHR ''-''
         \<and> s ! 23 = CHR ''-''
      then (case (hex_number (take 8 s), hex_number (take 4 (drop 9 s)),
                  hex_number (take 4 (drop 14 s)), hex_number (take 4 (drop 19 s)),
                  hex_number (drop 24 s)) of
              (Some l, Some m, Some h, Some c, Some n) \<Rightarrow>
                Inr \<lparr>time_low = l, time_mid = m, time_hi_and_version = h\<rparr>
            | _ \<Rightarrow> Inl (DriverError ''Invalid string representation of TimeUuid''))
      else Inl (DriverError ''Invalid string representation of TimeUuid''))"

text \<open>\<open>uuid.getDate().valueOf()\<close>: milliseconds since the unix epoch.\<close>

definition TimeUuid_getDate :: "timeuuid \<Rightarrow> int" where
  "TimeUuid_getDate u =
     int (((time_hi_and_version u mod 4096) * 2 ^ 48 + time_mid u * 2 ^ 32 + time_low u) div 10000)
       - 12219292800000"

text \<open>
  The statement under construction (\<open>Select()\<close> of the CQL builder, a dependency):
  \<open>table\<close>, \<open>field\<close>, \<open>filtering\<close> and \<open>where(expression, ...values)\<close> record what
  \<open>build()\<close> renders; the \<open>WHERE\<close> terms are kept in the order of the calls and joined by
  \<open>AND\<close>. The builder rejects, with a \<open>CqlBuilderError\<close>, a term whose number of values
  differs from the number of \<open>?\<close> in its expression (the message below stands for the
  builder's own wording).
\<close>

record select_query =
  sel_table :: string
  sel_keyspace :: string
  sel_fields :: jsval
  sel_filtering :: bool
  sel_wheres :: "(string \<times> jsval list) list"

definition cql_where :: "select_query \<Rightarrow> string \<Rightarrow> jsval list \<Rightarrow> error + select_query" where
  "cql_where q expr vals =
     (if count_list expr CHR ''?'' = length vals
      then Inr (q\<lparr>sel_wheres := sel_wheres q @ [(expr, vals)]\<rparr>)
      else Inl (CqlBuilderError ''the number of values does not match the placeholders''))"

text \<open>The next call on the builder, once an earlier one has thrown or not.\<close>

definition then_where ::
  "error + select_query \<Rightarrow> string \<Rightarrow> jsval list \<Rightarrow> error + select_query" where
  "then_where r expr vals = (case r of Inl e \<Rightarrow> Inl e | Inr q \<Rightarrow> cql_where q expr vals)"

text \<open>The fields of \<open>QueryParams\<close> that \<open>generateTransactionQuery\<close> reads; an optional
  field that is absent is \<open>None\<close> (or \<open>undefined\<close>).\<close>

record QueryParams =
  param_id :: "string option"
  param_ids :: "string list option"
  param_since :: "string option"
  param_status :: "string option"
  param_to :: "string list option"
  param_minHeight :: jsval
  param_maxHeight :: jsval
  param_select :: jsval

text \<open>
  \<^verbatim>\<open>
  if (params.since) {
    cql.where('block_timestamp < ?',
      CassandraTypes.Long.fromNumber(Math.floor(
        CassandraTypes.TimeUuid.fromString(params.since).getDate().valueOf() / 1000)));
  }
  \<close>
  \<open>Math.floor(x / 1000)\<close> of an integer \<open>x\<close> is \<open>x div 1000\<close>, which rounds down.
\<close>

definition sinceTerm :: "string \<Rightarrow> error + (string \<times> jsval list)" where
  "sinceTerm since =
     (case TimeUuid_fromString since of
        Inl e \<Rightarrow> Inl e
      | Inr u \<Rightarrow>
          Inr (''block_timestamp < ?'',
               [JLong (Long_fromNumber (Num (TimeUuid_getDate u div 1000)))]))"

text \<open>
  \<^verbatim>\<open>
  const cql = Select().table('transaction', KEYSPACE).field(params.select).filtering();
  if (params.id) { cql.where('id = ?', params.id); }
  else if (params.ids && Array.isArray(params.ids)) {
    cql.where.apply(cql, R.concat(
      [`id IN ( ${R.range(0, params.ids.length).map(() => '?').join(', ')} )`], params.ids));
  }
  if (params.since) { ... }
  if (params.status === 'confirmed') {
    cql.where('block_height >= ?', CassandraTypes.Long.fromNumber(0));
  }
  if (params.to) { cql.where('target = ?', params.to); }
  cql.where('block_height >=', params.minHeight);
  cql.where('block_height <=', params.maxHeight);
  return cql.build();
  \<close>
  The last two calls are made for every query, each with one value and an expression
  that has no \<open>?\<close>.
\<close>

definition generateTransactionQuery :: "string \<Rightarrow> QueryParams \<Rightarrow> error + select_query" where
  "generateTransactionQuery ks qp =
     (let cql0 = Inr \<lparr>sel_table = ''transaction'', sel_keyspace = ks,
                      sel_fields = param_select qp, sel_filtering = True, sel_wheres = []\<rparr>;
          idsTerm = (case param_ids qp of
                       Some ids \<Rightarrow>
                         then_where cql0
                           (''id IN ( '' @ intercalate '', '' (map (\<lambda>k. ''?'') ids) @ '' )'')
                           (map JStr ids)
                     | None \<Rightarrow> cql0);
          cql1 = (case param_id qp of
                    Some i \<Rightarrow> if i \<noteq> [] then then_where cql0 ''id = ?'' [JStr i] else idsTerm
                  | None \<Rightarrow> idsTerm);
          cql2 = (case param_since qp of
                    Some since \<Rightarrow>
                      if since \<noteq> [] then
                        (case cql1 of
                           Inl e \<Rightarrow> Inl e
                         | Inr q \<Rightarrow>
                             (case sinceTerm since of
                                Inl e \<Rightarrow> Inl e
                              | Inr (expr, vals) \<Rightarrow> cql_where q expr vals))
                      else cql1
                  | None \<Rightarrow> cql1);
          cql3 = (if param_status qp = Some ''confirmed''
                  then then_where cql2 ''block_height >= ?'' [JLong (Long_fromNumber (Num 0))]
                  else cql2);
          cql4 = (case param_to qp of
                    Some to \<Rightarrow> then_where cql3 ''target = ?'' [JArr (map JStr to)]
                  | None \<Rightarrow> cql3);
          cql5 = then_where cql4 ''block_height >='' [param_minHeight qp];
          cql6 = then_where cql5 ''block_height <='' [param_maxHeight qp]
      in cql6)"

text \<open>The query of the spec's scenario: only \<open>since\<close> is given, the time-based UUID of
  2024-01-01T00:00:00Z.\<close>

definition since_2024 :: QueryParams where
  "since_2024 =
     \<lparr>param_id = None, param_ids = None,
      param_since = Some ''b4cc8000-a838-11ee-8000-000000000000'',
      param_status = None, param_to = None, param_minHeight = JUndefined,
      param_maxHeight = JUndefined, param_select = JUndefined\<rparr>"

section \<open>The doctor's scan: \<open>findMissingBlocks\<close>\<close>

record UnsyncedBlock =
  height :: nat
  hash :: string

text \<open>
  \<^verbatim>\<open>
  const hashListObject = hashList.reduce((accumulator, hash, height) => {
    accumulator[height] = { height, hash };
    return accumulator;
  }, {});
  \<close>
  The object is the list of its entries; the key of an entry is the decimal string of
  the index, and \<open>i\<close> is the index of the first hash of the remaining list.
\<close>

fun hashListEntries :: "nat \<Rightarrow> string list \<Rightarrow> (string \<times> UnsyncedBlock) list" where
  "hashListEntries i [] = []"
| "hashListEntries i (h # hs) = (digits i, \<lparr>height = i, hash = h\<rparr>) # hashListEntries (i + 1) hs"

text \<open>
  \<open>R.type\<close> and \<open>R.equals\<close> as rambda 6 has them. \<open>R.type\<close> names a primitive by its
  \<open>typeof\<close> (\<open>NaN\<close> apart) and an array as \<open>Array\<close>; any other object is named after its
  string form, \<open>Number\<close> when that reads as a number, which the decimal string of a Long
  does, and \<open>Object\<close> for a plain object. \<open>R.equals\<close> is \<open>false\<close> for values of different
  types and \<open>true\<close> for two \<open>NaN\<close>, \<open>undefined\<close> or \<open>null\<close>; numbers, strings and booleans
  are equal when their string forms are, so a number and a Long of the same value are
  equal. Arrays and plain objects are compared element by element; the model compares
  them structurally (the gateway passes a string or a number as the first argument).
\<close>

fun R_type :: "jsval \<Rightarrow> string" where
  "R_type JNull = ''Null''"
| "R_type JUndefined = ''Undefined''"
| "R_type (JBool b) = ''Boolean''"
| "R_type (JNum NaN) = ''NaN''"
| "R_type (JNum (Num i)) = ''Number''"
| "R_type (JStr s) = ''String''"
| "R_type (JArr xs) = ''Array''"
| "R_type (JLong l) = ''Number''"
| "R_type (JObj kvs) = ''Object''"

definition R_equals :: "jsval \<Rightarrow> jsval \<Rightarrow> bool" where
  "R_equals a b =
     (if R_type a \<noteq> R_type b then False
      else if R_type a \<in> set [''NaN'', ''Undefined'', ''Null''] then True
      else if R_type a \<in> set [''Number'', ''String'', ''Boolean'']
        then js_toString a = js_toString b
      else a = b)"

text \<open>
  The row callback of \<open>eachRow\<close>:
  \<^verbatim>\<open>
  const matchingRow = hashListObject[row.height];
  if (matchingRow && R.equals(matchingRow["hash"], row.indep_hash)
                  && R.equals(matchingRow["height"], row.height)) {
    delete hashListObject[row.height];
  } else { log.info(`Found missing block: ${n}`); }
  \<close>
  \<open>row.height\<close> used as a property key is its string form.
\<close>

definition onRow :: "(string \<times> UnsyncedBlock) list \<Rightarrow> jsobj \<Rightarrow> (string \<times> UnsyncedBlock) list" where
  "onRow hashListObject row =
     (case map_of hashListObject (js_toString (lookup row ''height'')) of
        None \<Rightarrow> hashListObject
      | Some matchingRow \<Rightarrow>
          if R_equals (JStr (hash matchingRow)) (lookup row ''indep_hash'')
             \<and> R_equals (JNum (Num (int (height matchingRow)))) (lookup row ''height'')
          then filter (\<lambda>entry. fst entry \<noteq> js_toString (lookup row ''height'')) hashListObject
          else hashListObject)"

text \<open>
  The rows are those the store streams before the final callback; \<open>streamError\<close> is the
  string form of the error the final callback receives, \<open>None\<close> when the stream ended
  well. The promise is rejected (\<open>Inl\<close>) with \<open>(error || "").toString()\<close> or resolved with
  \<open>R.sortBy(R.prop("height"))(R.values(hashListObject))\<close>.
\<close>

definition findMissingBlocks ::
  "string list \<Rightarrow> jsobj list \<Rightarrow> string option \<Rightarrow> string + UnsyncedBlock list" where
  "findMissingBlocks hashList rows streamError =
     (let hashListObject = foldl onRow (hashListEntries 0 hashList) rows in
      case streamError of
        Some e \<Rightarrow> Inl e
      | None \<Rightarrow> Inr (sort_key height (Object_values hashListObject)))"

subsection \<open>Vocabulary for the doctor's claim\<close>

text \<open>A local row matches an entry on both height and \<open>indep_hash\<close>: its \<open>indep_hash\<close> is
  the entry's hash, and its \<open>height\<close>, which the driver delivers as a Long (or a JavaScript
  number), is the entry's height.\<close>

definition rowMatches :: "UnsyncedBlock \<Rightarrow> jsobj \<Rightarrow> bool" where
  "rowMatches entry row =
     (lookup row ''indep_hash'' = JStr (hash entry)
      \<and> (case lookup row ''height'' of
            JNum (Num i) \<Rightarrow> i = int (height entry)
          | JLong l \<Rightarrow> sint l = int (height entry)
          | _ \<Rightarrow> False))"

section \<open>The sync orchestrator: polling and fork recovery\<close>

text \<open>
  The process-wide variables of the orchestrator that polling and fork recovery use.
  \<open>pendingScans\<close> counts the deletion scans (\<open>eachRow\<close>) that \<open>resolveFork\<close> has started
  and whose final callback has not run yet: \<open>eachRow\<close> is not awaited, so the scan goes on
  after \<open>resolveFork\<close> has returned.
\<close>

record sync_state =
  topHash :: jsval
  gatewayHeight :: jsval
  isPollingStarted :: bool
  isPaused :: bool
  pendingScans :: nat

text \<open>\<open>topHash = ""\<close>, \<open>gatewayHeight = toLong(0)\<close>, both flags \<open>false\<close>.\<close>

definition initial_state :: sync_state where
  "initial_state =
     \<lparr>topHash = JStr '''', gatewayHeight = JLong (toLong (JNum (Num 0))),
      isPollingStarted = False, isPaused = False, pendingScans = 0\<rparr>"

record BlockType =
  indep_hash :: string
  previous_block :: string
  block_height :: int

record NodeInfo =
  current :: string
  node_height :: int

text \<open>
  What the remote node and the store answer during one iteration of the polling loop:
  \<open>getNodeInfo\<close>; the response to the query of \<open>getMaxHeightBlock\<close>; \<open>fetchBlockByHash\<close>
  (\<open>None\<close> when the request fails, which throws); and, for \<open>resolveFork\<close>, the height of
  the first row of \<open>SELECT height FROM block WHERE indep_hash=?\<close> (\<open>None\<close> when
  \<open>rowLength\<close> is \<open>0\<close>).
\<close>

record poll_env =
  nodeInfo :: "NodeInfo option"
  gqlResponse :: "error + jsobj list"
  fetchBlockByHash :: "string \<Rightarrow> BlockType option"
  localHeight :: "string \<Rightarrow> int option"

text \<open>What the orchestrator does to the outside: a job for the worker pool
  (\<open>workerPool.single.importBlock(height)\<close>), a sleep of \<open>POLLTIME_DELAY_SECONDS\<close>, and
  the start of the scan that deletes the local blocks above a height.\<close>

datatype action =
    ImportBlock int
  | Sleep
  | StartDeleteScan int

datatype status =
    Completed
  | Threw error
  | Unfinished

text \<open>\<open>export function togglePause(): void { isPaused = !isPaused; }\<close>\<close>

definition togglePause :: "sync_state \<Rightarrow> sync_state" where
  "togglePause s = s\<lparr>isPaused := \<not> isPaused s\<rparr>"

text \<open>
  \<^verbatim>\<open>
  async function resolveFork(previousBlock: BlockType): Promise<void> {
    isPaused = true;
    const pprevBlock = await fetchBlockByHash(previousBlock.previous_block);
    const blockQueryResult = await cassandraClient.execute(
      `SELECT height FROM ${KEYSPACE}.block WHERE indep_hash=?`, [pprevBlock.indep_hash]);
    if (blockQueryResult.rowLength > 0) {
      cassandraClient.eachRow(`SELECT height, indep_hash FROM ${KEYSPACE}.block
         WHERE height > ${blockQueryResult.rows[0].height.toString()} ALLOW FILTERING`, ...,
        async function (n, row) { await cassandraClient.execute(`DELETE ...`); },
        function () { isPaused = false; log.info(...); });
    } else {
      workerPool.single.importBlock(pprevBlock.height);
      return await resolveFork(pprevBlock);
    }
  }
  \<close>
  The recursion walks the parent chain and ends at the first ancestor the store knows;
  the first argument bounds its depth, and \<open>Unfinished\<close> is the status of a walk that has
  not ended within the bound. The result is the state reached, the actions in their
  order, and the status.
\<close>

fun resolveFork ::
  "nat \<Rightarrow> poll_env \<Rightarrow> BlockType \<Rightarrow> sync_state \<Rightarrow> sync_state \<times> action list \<times> status" where
  "resolveFork 0 env previousBlock s = (s, [], Unfinished)"
| "resolveFork (Suc fuel) env previousBlock s =
     (let s1 = s\<lparr>isPaused := True\<rparr> in
      case fetchBlockByHash env (previous_block previousBlock) of
        None \<Rightarrow> (s1, [], Threw (DriverError ''fetchBlockByHash failed''))
      | Some pprevBlock \<Rightarrow>
          (case localHeight env (indep_hash pprevBlock) of
             Some h \<Rightarrow> (s1\<lparr>pendingScans := pendingScans s1 + 1\<rparr>, [StartDeleteScan h], Completed)
           | None \<Rightarrow>
               (case resolveFork fuel env pprevBlock s1 of
                  (s2, actions, st) \<Rightarrow> (s2, ImportBlock (block_height pprevBlock) # actions, st))))"

text \<open>The final callback of a deletion scan: \<open>function () { isPaused = false; ... }\<close>.\<close>

definition scanEnd :: "sync_state \<Rightarrow> sync_state" where
  "scanEnd s = s\<lparr>isPaused := False, pendingScans := pendingScans s - 1\<rparr>"

text \<open>
  One pass through the body of \<open>startPolling\<close>, up to the recursive call that ends every
  path (\<open>return startPolling()\<close>):
  \<^verbatim>\<open>
  if (!isPollingStarted) { isPollingStarted = true; log.info(...); }
  const nodeInfo = await getNodeInfo({});
  if (!nodeInfo) { await sleep; return startPolling(); }
  [topHash, gatewayHeight] = await getMaxHeightBlock();
  if (nodeInfo.current === topHash) { await sleep; return startPolling(); }
  else {
    const currentRemoteBlock = await fetchBlockByHash(nodeInfo.current);
    const previousBlock = await fetchBlockByHash(currentRemoteBlock.previous_block);
    if (previousBlock.indep_hash !== topHash) {
      log.info(...); await resolveFork(currentRemoteBlock); log.info("blocks are back in sync!");
    } else {
      await workerPool.single.importBlock(nodeInfo.height);
      await sleep;
    }
  }
  return startPolling();
  \<close>
\<close>

definition startPolling_pass ::
  "nat \<Rightarrow> poll_env \<Rightarrow> sync_state \<Rightarrow> sync_state \<times> action list \<times> status" where
  "startPolling_pass fuel env s =
     (let s0 = (if \<not> isPollingStarted s then s\<lparr>isPollingStarted := True\<rparr> else s) in
      case nodeInfo env of
        None \<Rightarrow> (s0, [Sleep], Completed)
      | Some info \<Rightarrow>
          (case getMaxHeightBlock (gqlResponse env) of
             Inl e \<Rightarrow> (s0, [], Threw e)
           | Inr (th, gh) \<Rightarrow>
               (let s1 = s0\<lparr>topHash := th, gatewayHeight := gh\<rparr> in
                if JStr (current info) = th then (s1, [Sleep], Completed)
                else
                  (case fetchBlockByHash env (current info) of
                     None \<Rightarrow> (s1, [], Threw (DriverError ''fetchBlockByHash failed''))
                   | Some currentRemoteBlock \<Rightarrow>
                       (case fetchBlockByHash env (previous_block currentRemoteBlock) of
                          None \<Rightarrow> (s1, [], Threw (DriverError ''fetchBlockByHash failed''))
                        | Some previousBlock \<Rightarrow>
                            if JStr (indep_hash previousBlock) \<noteq> th
                            then resolveFork fuel env currentRemoteBlock s1
                            else (s1, [ImportBlock (node_height info), Sleep], Completed))))))"

text \<open>
  The main process is cooperative: between two passes of the polling loop, and at every
  \<open>await\<close> inside one, the final callback of a pending scan may run. A schedule lists, in
  order, the passes of the loop (each with what the node and the store answer during it)
  and the scan completions that happen between them. The loop stops when a pass throws.
\<close>

datatype event =
    Poll poll_env
  | ScanEnds

fun run :: "nat \<Rightarrow> event list \<Rightarrow> sync_state \<Rightarrow> sync_state \<times> action list \<times> status" where
  "run fuel [] s = (s, [], Completed)"
| "run fuel (ScanEnds # es) s =
     (if 0 < pendingScans s then run fuel es (scanEnd s) else run fuel es s)"
| "run fuel (Poll env # es) s =
     (case startPolling_pass fuel env s of
        (s1, actions, Completed) \<Rightarrow>
          (case run fuel es s1 of (s2, actions2, st) \<Rightarrow> (s2, actions @ actions2, st))
      | (s1, actions, st) \<Rightarrow> (s1, actions, st))"

subsection \<open>The fork of the spec's scenario 3\<close>

text \<open>
  The store holds the heights \<open>0 .. 9\<close> with \<open>h9_local\<close> on top; the node's tip is \<open>h10'\<close>,
  whose parent \<open>h9'\<close> is not the local block; \<open>h8\<close> is common. During the first pass the
  store's top is \<open>h9_local\<close>. During the second the worker has imported \<open>h9'\<close>, which is
  now the store's top, and the deletion scan that \<open>resolveFork\<close> started is still running.
\<close>

definition remote_chain :: "string \<Rightarrow> BlockType option" where
  "remote_chain h =
     (if h = ''h10x'' then Some \<lparr>indep_hash = ''h10x'', previous_block = ''h9x'', block_height = 10\<rparr>
      else if h = ''h9x'' then Some \<lparr>indep_hash = ''h9x'', previous_block = ''h8'', block_height = 9\<rparr>
      else if h = ''h8'' then Some \<lparr>indep_hash = ''h8'', previous_block = ''h7'', block_height = 8\<rparr>
      else None)"

definition fork_pass :: poll_env where
  "fork_pass =
     \<lparr>nodeInfo = Some \<lparr>current = ''h10x'', node_height = 10\<rparr>,
      gqlResponse = Inr [[(''height'', JLong 9), (''indep_hash'', JStr ''h9_local'')]],
      fetchBlockByHash = remote_chain,
      localHeight = (\<lambda>h. if h = ''h8'' then Some 8 else if h = ''h9_local'' then Some 9 else None)\<rparr>"

definition tip_pass :: poll_env where
  "tip_pass =
     \<lparr>nodeInfo = Some \<lparr>current = ''h10x'', node_height = 10\<rparr>,
      gqlResponse = Inr [[(''height'', JLong 9), (''indep_hash'', JStr ''h9x'')]],
      fetchBlockByHash = remote_chain,
      localHeight = (\<lambda>h. if h = ''h8'' then Some 8 else if h = ''h9x'' then Some 9 else None)\<rparr>"

section \<open>Properties of the type adapter\<close>

lemma Long_fromNumber_0: "Long_fromNumber (Num 0) = 0"
  by (simp add: Long_fromNumber_def)

lemma Long_fromNumber_NaN: "Long_fromNumber NaN = 0"
  by (simp add: Long_fromNumber_def)

lemma decimal_0: "decimal ''0'' = 0"
  by (simp add: decimal_def is_digit_def digit_val_def)

lemma Long_fromString_0: "Long_fromString ''0'' = 0"
  by (simp add: Long_fromString_def decimal_0)

lemma is_digit_digit_char: "d < 10 \<Longrightarrow> is_digit (digit_char d)"
  by (simp add: is_digit_def digit_char_def)

lemma digit_val_digit_char: "d < 10 \<Longrightarrow> digit_val (digit_char d) = d"
  by (simp add: digit_val_def digit_char_def)

lemma digits_all_digits: "c \<in> set (digits n) \<Longrightarrow> is_digit c"
proof (induction n arbitrary: c rule: digits.induct)
  case (1 n)
  show ?case
  proof (cases "n < 10")
    case True
    with "1.prems" show ?thesis
      by (simp add: digits.simps [of n] is_digit_digit_char)
  next
    case False
    with "1.prems" "1.IH" show ?thesis
      by (auto simp: digits.simps [of n] is_digit_digit_char)
  qed
qed

lemma decimal_from_append:
  "(\<And>c. c \<in> set xs \<Longrightarrow> is_digit c) \<Longrightarrow> decimal_from a (xs @ ys) = decimal_from (decimal_from a xs) ys"
  by (induction xs arbitrary: a) auto

lemma decimal_digits: "decimal (digits n) = n"
proof (induction n rule: digits.induct)
  case (1 n)
  show ?case
  proof (cases "n < 10")
    case True
    then show ?thesis
      by (simp add: decimal_def digits.simps [of n] is_digit_digit_char digit_val_digit_char)
  next
    case False
    then have ih: "decimal_from 0 (digits (n div 10)) = n div 10"
      using "1.IH" by (simp add: decimal_def)
    have "decimal (digits n) = decimal_from 0 (digits (n div 10) @ [digit_char (n mod 10)])"
      using False by (simp add: decimal_def digits.simps [of n])
    also have "\<dots> = decimal_from (n div 10) [digit_char (n mod 10)]"
      by (simp add: decimal_from_append digits_all_digits ih)
    also have "\<dots> = n"
      by (simp add: is_digit_digit_char digit_val_digit_char)
    finally show ?thesis .
  qed
qed

lemma digits_not_Nil: "digits n \<noteq> []"
  by (simp add: digits.simps [of n])

lemma digits_hd_not_minus: "digits n = c # cs \<Longrightarrow> c \<noteq> CHR ''-''"
proof
  assume a: "digits n = c # cs" and "c = CHR ''-''"
  then have "is_digit (CHR ''-'')"
    using digits_all_digits [of c n] by simp
  then show False by (simp add: is_digit_def)
qed

lemma Long_fromString_show_int: "Long_fromString (show_int i) = word_of_int i"
proof (cases "i < 0")
  case True
  then show ?thesis
    by (simp add: Long_fromString_def show_int_def decimal_digits)
next
  case False
  obtain c cs where d: "digits (nat i) = c # cs"
    using digits_not_Nil [of "nat i"] by (cases "digits (nat i)") auto
  have "c \<noteq> CHR ''-''" using d by (rule digits_hd_not_minus)
  moreover have "decimal (c # cs) = nat i"
    using decimal_digits [of "nat i"] d by simp
  ultimately show ?thesis
    using False d by (simp add: Long_fromString_def show_int_def)
qed

lemma sint_Long_fromNumber:
  "- (2 ^ 63) \<le> i \<Longrightarrow> i < 2 ^ 63 \<Longrightarrow> sint (Long_fromNumber (Num i)) = i"
  by (auto simp: Long_fromNumber_def sint_sbintrunc' signed_take_bit_int_eq_self)

lemma toLong_JNum: "toLong (JNum n) = Long_fromNumber n"
  by (cases n) (auto simp: toLong_def Long_fromNumber_0 Long_fromNumber_NaN)

text \<open>
  Claim C4. \<open>toLong\<close> returns \<open>0\<close> for \<open>undefined\<close>, \<open>null\<close> and every other falsy value
  that is not a string, and for the empty string; a non-empty string is parsed as a
  base-10 integer (\<open>Long.fromString\<close>; in particular the decimal numeral of \<open>i\<close> reads back
  as \<open>i\<close>, wrapped to 64 bits); a number is cast directly (\<open>Long.fromNumber\<close>; a number
  within the signed 64-bit range keeps its value); a Long is returned unchanged.
\<close>

theorem toLong_rules:
  "(\<not> truthy x \<and> \<not> isString x \<longrightarrow> toLong x = 0)
   \<and> toLong JUndefined = 0 \<and> toLong JNull = 0
   \<and> toLong (JStr '''') = 0
   \<and> (s \<noteq> [] \<longrightarrow> toLong (JStr s) = Long_fromString s)
   \<and> toLong (JStr (show_int i)) = word_of_int i
   \<and> toLong (JNum n) = Long_fromNumber n
   \<and> (- (2 ^ 63) \<le> i \<and> i < 2 ^ 63 \<longrightarrow> sint (toLong (JNum (Num i))) = i)
   \<and> toLong (JLong l) = l"
proof -
  have falsy: "\<not> truthy x \<and> \<not> isString x \<longrightarrow> toLong x = 0"
    by (cases x) (auto simp: toLong_def Long_fromNumber_0)
  have str: "s \<noteq> [] \<longrightarrow> toLong (JStr s) = Long_fromString s"
    by (simp add: toLong_def)
  have shown: "toLong (JStr (show_int i)) = word_of_int i"
  proof -
    have "show_int i \<noteq> []"
      using digits_not_Nil by (simp add: show_int_def)
    then show ?thesis
      by (simp add: toLong_def Long_fromString_show_int)
  qed
  have num: "toLong (JNum n) = Long_fromNumber n"
    by (rule toLong_JNum)
  have cast: "- (2 ^ 63) \<le> i \<and> i < 2 ^ 63 \<longrightarrow> sint (toLong (JNum (Num i))) = i"
    by (simp add: toLong_JNum sint_Long_fromNumber)
  show ?thesis
    using falsy str shown num cast
    by (simp add: toLong_def Long_fromNumber_0 Long_fromString_0)
qed

theorem toLong_rules_witness:
  "toLong (JBool False) = 0 \<and> toLong (JStr ''42'') = Long_fromString ''42''
   \<and> toLong (JStr ''-7'') = - 7 \<and> sint (toLong (JNum (Num (- 7)))) = - 7"
  using toLong_rules [of "JBool False" "''42''" "- 7" NaN 0]
  by (simp add: show_int_def digits.simps [of 7] digit_char_def)

section \<open>Properties of \<open>getMaxHeightBlock\<close>\<close>

text \<open>
  Claim C10. When the store answers with no rows, \<open>getMaxHeightBlock\<close> returns the
  sentinel pair \<open>('', Long(-1))\<close> and does not fail; when it answers with rows, the result
  is the first row's \<open>(indep_hash, height)\<close>. (Only a rejected query makes it fail, with
  the query's error.)
\<close>

theorem getMaxHeightBlock_rows:
  "getMaxHeightBlock (Inr []) = Inr (JStr '''', JLong (- 1))
   \<and> getMaxHeightBlock (Inr (row # rest)) = Inr (lookup row ''indep_hash'', lookup row ''height'')
   \<and> getMaxHeightBlock (Inl e) = Inl e"
  by (simp add: getMaxHeightBlock_def toLong_def Long_fromNumber_def)

theorem getMaxHeightBlock_rows_witness:
  "getMaxHeightBlock (Inr []) = Inr (JStr '''', JLong (- 1))
   \<and> getMaxHeightBlock (Inr [[(''height'', JLong 9), (''indep_hash'', JStr ''h9'')]])
       = Inr (JStr ''h9'', JLong 9)"
  using getMaxHeightBlock_rows [of "[(''height'', JLong 9), (''indep_hash'', JStr ''h9'')]" "[]"]
  by (simp add: lookup_def)

section \<open>Properties of the row projector\<close>

lemma transformTxKey_Inr:
  "key \<noteq> ''tags'' \<Longrightarrow> \<exists>v. transformTxKey key tx bd = Inr v"
  by (simp add: transformTxKey_def)

lemma reduce_transactionKeys:
  "''tags'' \<notin> set keys \<Longrightarrow>
   reduce_err (txReduceStep tx bd) (ps, ns, ds) keys =
     Inr (ps @ map (\<lambda>k. projr (transformTxKey k tx bd)) (filter (\<lambda>k. keeps (projr (transformTxKey k tx bd))) keys),
          ns @ filter (\<lambda>k. keeps (projr (transformTxKey k tx bd))) keys,
          if ''data_size'' \<in> set keys then projr (transformTxKey ''data_size'' tx bd) else ds)"
proof (induction keys arbitrary: ps ns ds)
  case Nil
  then show ?case by simp
next
  case (Cons k keys)
  then have k: "k \<noteq> ''tags''" and rest: "''tags'' \<notin> set keys" by auto
  obtain v where v: "transformTxKey k tx bd = Inr v"
    using transformTxKey_Inr [OF k] by blast
  show ?case
  proof (cases "keeps v")
    case True
    then show ?thesis
      using v Cons.IH [OF rest] by (auto simp: txReduceStep_def keeps_def Let_def)
  next
    case False
    then show ?thesis
      using v Cons.IH [OF rest] by (auto simp: txReduceStep_def keeps_def Let_def)
  qed
qed

lemma makeTxImportQuery_shape:
  "makeTxImportQuery tx bd =
     (case tagPart tx of
        Inl e \<Rightarrow> Inl e
      | Inr tagInserts \<Rightarrow>
          (case offsetPart tx (JLong (toLong (lookup tx ''data_size''))) of
             Inl e \<Rightarrow> Inl e
           | Inr offsetInserts \<Rightarrow>
               Inr ([execute blockByTxIdInsertQuery
                       (JArr [lookup tx ''id'', lookup bd ''height'', lookup bd ''indep_hash'']),
                     execute (transactionInsertQuery
                                (filter (\<lambda>k. keeps (projr (transformTxKey k tx bd))) transactionKeys))
                       (JArr (map (\<lambda>k. projr (transformTxKey k tx bd))
                                (filter (\<lambda>k. keeps (projr (transformTxKey k tx bd))) transactionKeys)))]
                    @ tagInserts @ offsetInserts)))"
proof -
  have "''tags'' \<notin> set transactionKeys"
    by (simp add: transactionKeys_def)
  then have "reduce_err (txReduceStep tx bd) ([], [], JUndefined) transactionKeys =
     Inr (map (\<lambda>k. projr (transformTxKey k tx bd)) (filter (\<lambda>k. keeps (projr (transformTxKey k tx bd))) transactionKeys),
          filter (\<lambda>k. keeps (projr (transformTxKey k tx bd))) transactionKeys,
          if ''data_size'' \<in> set transactionKeys then projr (transformTxKey ''data_size'' tx bd) else JUndefined)"
    using reduce_transactionKeys [of transactionKeys tx bd "[]" "[]" JUndefined] by simp
  moreover have "''data_size'' \<in> set transactionKeys"
    by (simp add: transactionKeys_def)
  moreover have "projr (transformTxKey ''data_size'' tx bd) = JLong (toLong (lookup tx ''data_size''))"
    by (simp add: transformTxKey_def)
  ultimately show ?thesis
    by (simp add: makeTxImportQuery_def)
qed

lemma get_prop_isTag: "isTag t \<Longrightarrow> \<exists>r. get_prop t k = Inr r"
  by (cases t) (simp_all add: isTag_def)

lemma transformTag_isTag:
  assumes "isTag t"
  shows "\<exists>n v. transformTag t tx i nxt =
     Inr (JObj [(''tag_index'', JNum (Num (int i))),
                (''next_tag_index'', js_or nxt JUndefined),
                (''tx_id'', lookup tx ''id''),
                (''name'', n),
                (''value'', v)])"
proof -
  obtain a where a: "get_prop t ''name'' = Inr a"
    using get_prop_isTag [OF assms] by blast
  obtain b where b: "get_prop t ''value'' = Inr b"
    using get_prop_isTag [OF assms] by blast
  show ?thesis
    by (simp add: transformTag_def a b)
qed

lemma bound_tag_index:
  "bound (execute txTagsInsertQuery (JObj ((''tag_index'', v) # kvs))) ''tag_index'' =
     (if v = JUndefined then None else Some v)"
  by (simp add: bound_def execute_def txTagsInsertQuery_def txTagKeys_def lookup_def)

lemma bound_next_tag_index:
  "bound (execute txTagsInsertQuery (JObj ((''tag_index'', v) # (''next_tag_index'', w) # kvs))) ''next_tag_index'' =
     (if w = JUndefined then None else Some w)"
  by (simp add: bound_def execute_def txTagsInsertQuery_def txTagKeys_def lookup_def)

lemma tagStatements_isTag:
  "\<forall>t\<in>set ts. isTag t \<Longrightarrow>
   \<exists>ss. tagStatements tx len i ts = Inr ss \<and> length ss = length ts
     \<and> (\<forall>s\<in>set ss. table (query s) = ''tx_tag'')
     \<and> (\<forall>j<length ts.
           bound (ss ! j) ''tag_index'' = Some (JNum (Num (int (i + j))))
         \<and> bound (ss ! j) ''next_tag_index'' =
             (if i + j + 1 < len then Some (JNum (Num (int (i + j + 1)))) else None))"
proof (induction ts arbitrary: i)
  case Nil
  then show ?case by simp
next
  case (Cons t ts)
  then have t: "isTag t" and ts: "\<forall>t\<in>set ts. isTag t" by auto
  obtain ss where ss: "tagStatements tx len (i + 1) ts = Inr ss" "length ss = length ts"
      "\<forall>s\<in>set ss. table (query s) = ''tx_tag''"
      "\<forall>j<length ts.
           bound (ss ! j) ''tag_index'' = Some (JNum (Num (int (i + 1 + j))))
         \<and> bound (ss ! j) ''next_tag_index'' =
             (if i + 1 + j + 1 < len then Some (JNum (Num (int (i + 1 + j + 1)))) else None)"
    using Cons.IH [OF ts, of "i + 1"] by blast
  let ?nxt = "if i + 1 < len then JNum (Num (int (i + 1))) else JUndefined"
  obtain n v where nv: "transformTag t tx i ?nxt =
     Inr (JObj [(''tag_index'', JNum (Num (int i))),
                (''next_tag_index'', js_or ?nxt JUndefined),
                (''tx_id'', lookup tx ''id''),
                (''name'', n),
                (''value'', v)])"
    using transformTag_isTag [OF t, of tx i ?nxt] by blast
  let ?p = "JObj [(''tag_index'', JNum (Num (int i))),
                (''next_tag_index'', js_or ?nxt JUndefined),
                (''tx_id'', lookup tx ''id''),
                (''name'', n),
                (''value'', v)]"
  have eq: "tagStatements tx len i (t # ts) = Inr (execute txTagsInsertQuery ?p # ss)"
    using nv ss(1) by simp
  have tbl: "table (query (execute txTagsInsertQuery ?p)) = ''tx_tag''"
    by (simp add: execute_def txTagsInsertQuery_def)
  have idx: "bound (execute txTagsInsertQuery ?p) ''tag_index'' = Some (JNum (Num (int i)))"
    by (simp add: bound_tag_index)
  have nxt: "bound (execute txTagsInsertQuery ?p) ''next_tag_index'' =
      (if i + 1 < len then Some (JNum (Num (int (i + 1)))) else None)"
    by (simp add: bound_next_tag_index js_or_def)
  have each: "\<forall>j<length (t # ts).
           bound ((execute txTagsInsertQuery ?p # ss) ! j) ''tag_index'' = Some (JNum (Num (int (i + j))))
         \<and> bound ((execute txTagsInsertQuery ?p # ss) ! j) ''next_tag_index'' =
             (if i + j + 1 < len then Some (JNum (Num (int (i + j + 1)))) else None)"
  proof (intro allI impI)
    fix j assume j: "j < length (t # ts)"
    show "bound ((execute txTagsInsertQuery ?p # ss) ! j) ''tag_index'' = Some (JNum (Num (int (i + j))))
         \<and> bound ((execute txTagsInsertQuery ?p # ss) ! j) ''next_tag_index'' =
             (if i + j + 1 < len then Some (JNum (Num (int (i + j + 1)))) else None)"
    proof (cases j)
      case 0
      then show ?thesis using idx nxt by simp
    next
      case (Suc j')
      then have "j' < length ts" using j by simp
      then show ?thesis using ss(4) Suc by (simp add: add.commute add.left_commute)
    qed
  qed
  show ?case
    using eq ss(2) ss(3) tbl each by (intro exI [of _ "execute txTagsInsertQuery ?p # ss"]) simp
qed

lemma get_prop_truthy: "truthy v \<Longrightarrow> \<exists>r. get_prop v k = Inr r"
  by (cases v) simp_all

lemma transformTxOffsetKeys_total: "\<exists>p. transformTxOffsetKeys tx = Inr p"
proof -
  define txOffset where "txOffset = (if truthy (lookup tx ''tx_offset'') then lookup tx ''tx_offset'' else JObj [])"
  have "truthy txOffset" by (simp add: txOffset_def)
  then obtain a b where "get_prop txOffset ''size'' = Inr a" "get_prop txOffset ''offset'' = Inr b"
    using get_prop_truthy by blast
  then show ?thesis
    unfolding transformTxOffsetKeys_def txOffset_def [symmetric] by (simp add: Let_def)
qed

lemma offsetPart_Long:
  "\<exists>off. offsetPart tx (JLong l) = Inr off
     \<and> (\<forall>s\<in>set off. table (query s) = ''tx_offset'')
     \<and> length off = (if Long_gt l 0 then 1 else 0)"
  using transformTxOffsetKeys_total [of tx]
  by (auto simp: offsetPart_def Long_fromNumber_0 execute_def txOffsetInsertQuery_def)

lemma tagPart_tagsOf: "tagsOf tx = Some ts \<Longrightarrow> tagPart tx = tagStatements tx (length ts) 0 ts"
  by (cases "lookup tx ''tags''")
     (auto simp: tagsOf_def tagPart_def js_or_def split: if_splits jsnum.splits)

lemma tag_count_value:
  "tagsOf tx = Some ts \<Longrightarrow>
   transformTxKey ''tag_count'' tx bd = Inr (JNum (Num (int (length ts))))"
  by (cases "lookup tx ''tags''")
     (auto simp: tagsOf_def transformTxKey_def split: if_splits jsnum.splits)

lemma bound_tag_count:
  assumes "tagsOf tx = Some ts"
  shows "bound (execute (transactionInsertQuery
                   (filter (\<lambda>k. keeps (projr (transformTxKey k tx bd))) transactionKeys))
                 (JArr (map (\<lambda>k. projr (transformTxKey k tx bd))
                   (filter (\<lambda>k. keeps (projr (transformTxKey k tx bd))) transactionKeys))))
           ''tag_count''
         = (if ts = [] then None else Some (JNum (Num (int (length ts)))))"
proof -
  have v: "projr (transformTxKey ''tag_count'' tx bd) = JNum (Num (int (length ts)))"
    using tag_count_value [OF assms] by simp
  have mem: "''tag_count'' \<in> set transactionKeys"
    by (simp add: transactionKeys_def)
  show ?thesis
    using v mem
    by (simp add: bound_def execute_def transactionInsertQuery_def map_of_zip_map keeps_def)
qed

lemma projector_statements:
  assumes "tagsOf tx = Some ts" and "list_all isTag ts"
  shows "\<exists>s1 s2 tagInserts off.
           makeTxImportQuery tx bd = Inr ([s1, s2] @ tagInserts @ off)
         \<and> table (query s1) = ''block_by_tx_id''
         \<and> table (query s2) = ''transaction''
         \<and> bound s2 ''tag_count'' = (if ts = [] then None else Some (JNum (Num (int (length ts)))))
         \<and> length tagInserts = length ts
         \<and> (\<forall>s\<in>set tagInserts. table (query s) = ''tx_tag'')
         \<and> (\<forall>j<length ts.
               bound (tagInserts ! j) ''tag_index'' = Some (JNum (Num (int j)))
             \<and> bound (tagInserts ! j) ''next_tag_index'' =
                 (if j + 1 < length ts then Some (JNum (Num (int (j + 1)))) else None))
         \<and> (\<forall>s\<in>set off. table (query s) = ''tx_offset'')
         \<and> length off = (if Long_gt (toLong (lookup tx ''data_size'')) 0 then 1 else 0)"
proof -
  have "\<forall>t\<in>set ts. isTag t"
    using assms(2) by (simp add: list_all_iff)
  then obtain tagInserts where tg: "tagStatements tx (length ts) 0 ts = Inr tagInserts"
      "length tagInserts = length ts"
      "\<forall>s\<in>set tagInserts. table (query s) = ''tx_tag''"
      "\<forall>j<length ts.
           bound (tagInserts ! j) ''tag_index'' = Some (JNum (Num (int (0 + j))))
         \<and> bound (tagInserts ! j) ''next_tag_index'' =
             (if 0 + j + 1 < length ts then Some (JNum (Num (int (0 + j + 1)))) else None)"
    using tagStatements_isTag [of ts tx "length ts" 0] by blast
  obtain off where off: "offsetPart tx (JLong (toLong (lookup tx ''data_size''))) = Inr off"
      "\<forall>s\<in>set off. table (query s) = ''tx_offset''"
      "length off = (if Long_gt (toLong (lookup tx ''data_size'')) 0 then 1 else 0)"
    using offsetPart_Long [of tx "toLong (lookup tx ''data_size'')"] by blast
  let ?s1 = "execute blockByTxIdInsertQuery
               (JArr [lookup tx ''id'', lookup bd ''height'', lookup bd ''indep_hash''])"
  let ?s2 = "execute (transactionInsertQuery
                   (filter (\<lambda>k. keeps (projr (transformTxKey k tx bd))) transactionKeys))
                 (JArr (map (\<lambda>k. projr (transformTxKey k tx bd))
                   (filter (\<lambda>k. keeps (projr (transformTxKey k tx bd))) transactionKeys)))"
  have eq: "makeTxImportQuery tx bd = Inr ([?s1, ?s2] @ tagInserts @ off)"
    using tg(1) off(1) tagPart_tagsOf [OF assms(1)] by (simp add: makeTxImportQuery_shape)
  have t1: "table (query ?s1) = ''block_by_tx_id''"
    by (simp add: execute_def blockByTxIdInsertQuery_def)
  have t2: "table (query ?s2) = ''transaction''"
    by (simp add: execute_def transactionInsertQuery_def)
  have tc: "bound ?s2 ''tag_count'' = (if ts = [] then None else Some (JNum (Num (int (length ts)))))"
    by (rule bound_tag_count [OF assms(1)])
  have idx: "\<forall>j<length ts.
               bound (tagInserts ! j) ''tag_index'' = Some (JNum (Num (int j)))
             \<and> bound (tagInserts ! j) ''next_tag_index'' =
                 (if j + 1 < length ts then Some (JNum (Num (int (j + 1)))) else None)"
    using tg(4) by simp
  show ?thesis
    using eq t1 t2 tc tg(2) tg(3) idx off(2) off(3) by blast
qed

lemma inserts_into_parts:
  assumes "table (query s1) = ''block_by_tx_id''" "table (query s2) = ''transaction''"
    and "\<forall>s\<in>set tagInserts. table (query s) = ''tx_tag''"
    and "\<forall>s\<in>set off. table (query s) = ''tx_offset''"
  shows "inserts_into ''tx_tag'' ([s1, s2] @ tagInserts @ off) = tagInserts"
    and "inserts_into ''tx_offset'' ([s1, s2] @ tagInserts @ off) = off"
    and "inserts_into ''transaction'' ([s1, s2] @ tagInserts @ off) = [s2]"
proof -
  have a: "filter (\<lambda>s. table (query s) = ''tx_tag'') tagInserts = tagInserts"
    using assms(3) by (simp add: filter_id_conv)
  have b: "filter (\<lambda>s. table (query s) = ''tx_tag'') off = []"
    using assms(4) by (simp add: filter_empty_conv)
  have c: "filter (\<lambda>s. table (query s) = ''tx_offset'') tagInserts = []"
    using assms(3) by (simp add: filter_empty_conv)
  have d: "filter (\<lambda>s. table (query s) = ''tx_offset'') off = off"
    using assms(4) by (simp add: filter_id_conv)
  have e: "filter (\<lambda>s. table (query s) = ''transaction'') tagInserts = []"
    using assms(3) by (simp add: filter_empty_conv)
  have f: "filter (\<lambda>s. table (query s) = ''transaction'') off = []"
    using assms(4) by (simp add: filter_empty_conv)
  show "inserts_into ''tx_tag'' ([s1, s2] @ tagInserts @ off) = tagInserts"
    using assms(1,2) a b by (simp add: inserts_into_def)
  show "inserts_into ''tx_offset'' ([s1, s2] @ tagInserts @ off) = off"
    using assms(1,2) c d by (simp add: inserts_into_def)
  show "inserts_into ''transaction'' ([s1, s2] @ tagInserts @ off) = [s2]"
    using assms(1,2) e f by (simp add: inserts_into_def)
qed

text \<open>
  Claim C5. For a transaction whose tag list is well formed (missing, or an array of
  tags), \<open>makeTxImportQuery\<close> returns its statements, and a \<open>tx_offset\<close> insert is among
  them if and only if \<open>toLong(tx.data_size)\<close> is strictly greater than \<open>0\<close>; with
  \<open>data_size\<close> equal to \<open>0\<close> there is none, and there is never more than one.
\<close>

theorem tx_offset_iff_data_size:
  assumes "tagsOf tx = Some ts" and "list_all isTag ts"
  shows "\<exists>stmts. makeTxImportQuery tx blockData = Inr stmts
           \<and> (inserts_into ''tx_offset'' stmts \<noteq> [] \<longleftrightarrow> Long_gt (toLong (lookup tx ''data_size'')) 0)
           \<and> (toLong (lookup tx ''data_size'') = 0 \<longrightarrow> inserts_into ''tx_offset'' stmts = [])
           \<and> length (inserts_into ''tx_offset'' stmts) \<le> 1"
proof -
  obtain s1 s2 tagInserts off where p:
      "makeTxImportQuery tx blockData = Inr ([s1, s2] @ tagInserts @ off)"
      "table (query s1) = ''block_by_tx_id''" "table (query s2) = ''transaction''"
      "\<forall>s\<in>set tagInserts. table (query s) = ''tx_tag''"
      "\<forall>s\<in>set off. table (query s) = ''tx_offset''"
      "length off = (if Long_gt (toLong (lookup tx ''data_size'')) 0 then 1 else 0)"
    using projector_statements [OF assms, of blockData] by blast
  define stmts where "stmts = [s1, s2] @ tagInserts @ off"
  have res: "makeTxImportQuery tx blockData = Inr stmts"
    using p(1) by (simp add: stmts_def)
  have off: "inserts_into ''tx_offset'' stmts = off"
    unfolding stmts_def using inserts_into_parts(2) [OF p(2) p(3) p(4) p(5)] .
  have iff: "off \<noteq> [] \<longleftrightarrow> Long_gt (toLong (lookup tx ''data_size'')) 0"
    using p(6) by (cases off) (auto split: if_splits)
  have zero: "toLong (lookup tx ''data_size'') = 0 \<longrightarrow> off = []"
    using p(6) by (auto simp: Long_gt_def)
  have le: "length off \<le> 1"
    using p(6) by simp
  have "makeTxImportQuery tx blockData = Inr stmts
           \<and> (inserts_into ''tx_offset'' stmts \<noteq> [] \<longleftrightarrow> Long_gt (toLong (lookup tx ''data_size'')) 0)
           \<and> (toLong (lookup tx ''data_size'') = 0 \<longrightarrow> inserts_into ''tx_offset'' stmts = [])
           \<and> length (inserts_into ''tx_offset'' stmts) \<le> 1"
    unfolding off using res iff zero le by blast
  then show ?thesis ..
qed

text \<open>
  Claim C6. For a transaction with a non-empty tag list of length \<open>k\<close>, the statements
  hold \<open>k\<close> \<open>tx_tag\<close> inserts; the \<open>i\<close>-th binds \<open>tag_index = i\<close> and
  \<open>next_tag_index = i + 1\<close>, except the last (\<open>i = k - 1\<close>), whose \<open>next_tag_index\<close> is
  \<open>undefined\<close>, that is unset.
\<close>

theorem tx_tag_indices:
  assumes "lookup tx ''tags'' = JArr ts" and "ts \<noteq> []" and "list_all isTag ts"
  shows "\<exists>stmts. makeTxImportQuery tx blockData = Inr stmts
           \<and> length (inserts_into ''tx_tag'' stmts) = length ts
           \<and> (\<forall>i<length ts.
                 bound (inserts_into ''tx_tag'' stmts ! i) ''tag_index'' = Some (JNum (Num (int i)))
               \<and> bound (inserts_into ''tx_tag'' stmts ! i) ''next_tag_index'' =
                   (if i = length ts - 1 then None else Some (JNum (Num (int i + 1)))))"
proof -
  have tg: "tagsOf tx = Some ts"
    using assms(1) by (simp add: tagsOf_def)
  obtain s1 s2 tagInserts off where p:
      "makeTxImportQuery tx blockData = Inr ([s1, s2] @ tagInserts @ off)"
      "table (query s1) = ''block_by_tx_id''" "table (query s2) = ''transaction''"
      "\<forall>s\<in>set tagInserts. table (query s) = ''tx_tag''"
      "\<forall>s\<in>set off. table (query s) = ''tx_offset''"
      "length tagInserts = length ts"
      "\<forall>j<length ts.
               bound (tagInserts ! j) ''tag_index'' = Some (JNum (Num (int j)))
             \<and> bound (tagInserts ! j) ''next_tag_index'' =
                 (if j + 1 < length ts then Some (JNum (Num (int (j + 1)))) else None)"
    using projector_statements [OF tg assms(3), of blockData] by blast
  have tags: "inserts_into ''tx_tag'' ([s1, s2] @ tagInserts @ off) = tagInserts"
    using inserts_into_parts(1) [OF p(2) p(3) p(4) p(5)] .
  have each: "\<forall>i<length ts.
                 bound (tagInserts ! i) ''tag_index'' = Some (JNum (Num (int i)))
               \<and> bound (tagInserts ! i) ''next_tag_index'' =
                   (if i = length ts - 1 then None else Some (JNum (Num (int i + 1))))"
  proof (intro allI impI)
    fix i assume i: "i < length ts"
    then have "(i + 1 < length ts) = (i \<noteq> length ts - 1)" by arith
    then show "bound (tagInserts ! i) ''tag_index'' = Some (JNum (Num (int i)))
               \<and> bound (tagInserts ! i) ''next_tag_index'' =
                   (if i = length ts - 1 then None else Some (JNum (Num (int i + 1))))"
      using p(7) i by simp
  qed
  show ?thesis
    using p(1) p(6) tags each by (intro exI [of _ "[s1, s2] @ tagInserts @ off"]) simp
qed

lemma tag_rows_and_tag_count:
  assumes "tagsOf tx = Some ts" and "list_all isTag ts"
  shows "\<exists>stmts. makeTxImportQuery tx blockData = Inr stmts
           \<and> map (\<lambda>s. bound s ''tag_index'') (inserts_into ''tx_tag'' stmts)
               = map (\<lambda>i. Some (JNum (Num (int i)))) [0..<length ts]
           \<and> (\<exists>s. inserts_into ''transaction'' stmts = [s]
                 \<and> bound s ''tag_count'' =
                     (if ts = [] then None else Some (JNum (Num (int (length ts))))))"
proof -
  obtain s1 s2 tagInserts off where p:
      "makeTxImportQuery tx blockData = Inr ([s1, s2] @ tagInserts @ off)"
      "table (query s1) = ''block_by_tx_id''" "table (query s2) = ''transaction''"
      "\<forall>s\<in>set tagInserts. table (query s) = ''tx_tag''"
      "\<forall>s\<in>set off. table (query s) = ''tx_offset''"
      "length tagInserts = length ts"
      "\<forall>j<length ts. bound (tagInserts ! j) ''tag_index'' = Some (JNum (Num (int j)))
             \<and> bound (tagInserts ! j) ''next_tag_index'' =
                 (if j + 1 < length ts then Some (JNum (Num (int (j + 1)))) else None)"
      "bound s2 ''tag_count'' = (if ts = [] then None else Some (JNum (Num (int (length ts)))))"
    using projector_statements [OF assms, of blockData] by blast
  have tags: "inserts_into ''tx_tag'' ([s1, s2] @ tagInserts @ off) = tagInserts"
    using inserts_into_parts(1) [OF p(2) p(3) p(4) p(5)] .
  have txs: "inserts_into ''transaction'' ([s1, s2] @ tagInserts @ off) = [s2]"
    using inserts_into_parts(3) [OF p(2) p(3) p(4) p(5)] .
  have idx: "map (\<lambda>s. bound s ''tag_index'') tagInserts
               = map (\<lambda>i. Some (JNum (Num (int i)))) [0..<length ts]"
    using p(6) p(7) by (intro nth_equalityI) simp_all
  show ?thesis
    using p(1) tags txs idx p(8) by (intro exI [of _ "[s1, s2] @ tagInserts @ off"]) simp
qed

lemma tagsOf_two_tags: "tagsOf tx_two_tags = Some two_tags"
  by (simp add: tagsOf_def tx_two_tags_def lookup_def)

lemma isTag_two_tags: "list_all isTag two_tags"
  by (simp add: two_tags_def isTag_def)

lemma tagsOf_no_tags: "tagsOf tx_no_tags = Some []"
  by (simp add: tagsOf_def tx_no_tags_def lookup_def)

lemma toLong_1024: "toLong (JStr ''1024'') = 1024"
  by (simp add: toLong_def Long_fromString_def decimal_def is_digit_def digit_val_def)

lemma makeTxImportQuery_no_tags:
  "makeTxImportQuery tx_no_tags block_5 =
     Inr [execute blockByTxIdInsertQuery (JArr [JStr ''tx0'', JNum (Num 5), JStr ''h5'']),
          execute (transactionInsertQuery
                     [''block_height'', ''block_hash'', ''block_timestamp'', ''data_size'', ''id'',
                      ''quantity'', ''reward''])
            (JArr [JLong 5, JStr ''h5'', JLong 1600000000, JLong 0, JStr ''tx0'', JLong 0, JLong 0])]"
  by (simp add: makeTxImportQuery_shape tagPart_def offsetPart_def tx_no_tags_def block_5_def
      lookup_def js_or_def transactionKeys_def transformTxKey_def keeps_def toLong_def
      Long_fromNumber_def Long_fromString_def decimal_def is_digit_def digit_val_def Long_gt_def)

theorem tx_offset_iff_data_size_witness:
  "tagsOf tx_two_tags = Some two_tags \<and> list_all isTag two_tags
   \<and> Long_gt (toLong (lookup tx_two_tags ''data_size'')) 0
   \<and> (\<exists>stmts. makeTxImportQuery tx_two_tags block_5 = Inr stmts
         \<and> length (inserts_into ''tx_offset'' stmts) = 1)"
proof -
  have gt: "Long_gt (toLong (lookup tx_two_tags ''data_size'')) 0"
    by (simp add: tx_two_tags_def lookup_def toLong_1024 Long_gt_def)
  obtain stmts where s: "makeTxImportQuery tx_two_tags block_5 = Inr stmts"
      "inserts_into ''tx_offset'' stmts \<noteq> [] \<longleftrightarrow> Long_gt (toLong (lookup tx_two_tags ''data_size'')) 0"
      "length (inserts_into ''tx_offset'' stmts) \<le> 1"
    using tx_offset_iff_data_size [OF tagsOf_two_tags isTag_two_tags, of block_5] by blast
  have "length (inserts_into ''tx_offset'' stmts) = 1"
    using s(2) s(3) gt by (cases "inserts_into ''tx_offset'' stmts") auto
  then show ?thesis
    using tagsOf_two_tags isTag_two_tags gt s(1) by blast
qed

theorem tx_tag_indices_witness:
  "lookup tx_two_tags ''tags'' = JArr two_tags \<and> two_tags \<noteq> [] \<and> list_all isTag two_tags
   \<and> (\<exists>stmts. makeTxImportQuery tx_two_tags block_5 = Inr stmts
         \<and> length (inserts_into ''tx_tag'' stmts) = 2
         \<and> bound (inserts_into ''tx_tag'' stmts ! 0) ''tag_index'' = Some (JNum (Num 0))
         \<and> bound (inserts_into ''tx_tag'' stmts ! 0) ''next_tag_index'' = Some (JNum (Num 1))
         \<and> bound (inserts_into ''tx_tag'' stmts ! 1) ''tag_index'' = Some (JNum (Num 1))
         \<and> bound (inserts_into ''tx_tag'' stmts ! 1) ''next_tag_index'' = None)"
proof -
  have a: "lookup tx_two_tags ''tags'' = JArr two_tags"
    by (simp add: tx_two_tags_def lookup_def)
  have b: "two_tags \<noteq> []"
    by (simp add: two_tags_def)
  have len: "length two_tags = 2"
    by (simp add: two_tags_def)
  obtain stmts where s: "makeTxImportQuery tx_two_tags block_5 = Inr stmts"
      "length (inserts_into ''tx_tag'' stmts) = length two_tags"
      "\<forall>i<length two_tags.
                 bound (inserts_into ''tx_tag'' stmts ! i) ''tag_index'' = Some (JNum (Num (int i)))
               \<and> bound (inserts_into ''tx_tag'' stmts ! i) ''next_tag_index'' =
                   (if i = length two_tags - 1 then None else Some (JNum (Num (int i + 1))))"
    using tx_tag_indices [OF a b isTag_two_tags, of block_5] by blast
  have i0: "bound (inserts_into ''tx_tag'' stmts ! 0) ''tag_index'' = Some (JNum (Num 0))
          \<and> bound (inserts_into ''tx_tag'' stmts ! 0) ''next_tag_index'' = Some (JNum (Num 1))"
    using s(3) [rule_format, of 0] len by simp
  have i1: "bound (inserts_into ''tx_tag'' stmts ! 1) ''tag_index'' = Some (JNum (Num 1))
          \<and> bound (inserts_into ''tx_tag'' stmts ! 1) ''next_tag_index'' = None"
    using s(3) [rule_format, of 1] len by simp
  show ?thesis
    using a b isTag_two_tags s(1) s(2) len i0 i1 by auto
qed

text \<open>
  Claim C3 says that for \<open>k\<close> tags there are exactly \<open>k\<close> \<open>tx_tag\<close> inserts with
  \<open>tag_index\<close> \<open>0 .. k - 1\<close> and that the \<open>transaction\<close> insert sets \<open>tag_count\<close> to \<open>k\<close>, with
  \<open>tag_count\<close> equal to \<open>0\<close> for the empty tag list. The code computes the \<open>0\<close>
  (\<open>transformTxKey\<close>, case \<open>tag_count\<close>) and then loses it: the number \<open>0\<close> is falsy, so the
  filter \<open>nextVal && !R.isEmpty(nextVal)\<close> leaves \<open>tag_count\<close> out of the insert. Evaluated
  on \<open>tx_no_tags\<close>: the \<open>transaction\<close> insert has no \<open>tag_count\<close> column. (For \<open>k \<ge> 1\<close>
  the claim holds: \<open>tag_rows_and_tag_count\<close> above.)
\<close>

theorem tag_count_dropped_for_empty_tags:
  "tagsOf tx_no_tags = Some []
   \<and> transformTxKey ''tag_count'' tx_no_tags block_5 = Inr (JNum (Num 0))
   \<and> \<not> keeps (JNum (Num 0))
   \<and> makeTxImportQuery tx_no_tags block_5 =
       Inr [execute blockByTxIdInsertQuery (JArr [JStr ''tx0'', JNum (Num 5), JStr ''h5'']),
            execute (transactionInsertQuery
                       [''block_height'', ''block_hash'', ''block_timestamp'', ''data_size'', ''id'',
                        ''quantity'', ''reward''])
              (JArr [JLong 5, JStr ''h5'', JLong 1600000000, JLong 0, JStr ''tx0'', JLong 0, JLong 0])]
   \<and> bound (execute (transactionInsertQuery
                       [''block_height'', ''block_hash'', ''block_timestamp'', ''data_size'', ''id'',
                        ''quantity'', ''reward''])
              (JArr [JLong 5, JStr ''h5'', JLong 1600000000, JLong 0, JStr ''tx0'', JLong 0, JLong 0]))
        ''tag_count'' = None"
proof -
  have "transformTxKey ''tag_count'' tx_no_tags block_5 = Inr (JNum (Num 0))"
    using tag_count_value [OF tagsOf_no_tags, of block_5] by simp
  moreover have "\<not> keeps (JNum (Num 0))"
    by (simp add: keeps_def)
  moreover have "bound (execute (transactionInsertQuery
                       [''block_height'', ''block_hash'', ''block_timestamp'', ''data_size'', ''id'',
                        ''quantity'', ''reward''])
              (JArr [JLong 5, JStr ''h5'', JLong 1600000000, JLong 0, JStr ''tx0'', JLong 0, JLong 0]))
        ''tag_count'' = None"
    by (simp add: bound_def execute_def transactionInsertQuery_def)
  ultimately show ?thesis
    using tagsOf_no_tags makeTxImportQuery_no_tags by simp
qed

theorem tag_count_dropped_for_empty_tags_witness:
  "\<not> (\<exists>stmts s. makeTxImportQuery tx_no_tags block_5 = Inr stmts
         \<and> s \<in> set stmts \<and> table (query s) = ''transaction''
         \<and> bound s ''tag_count'' = Some (JNum (Num 0)))"
  using tag_count_dropped_for_empty_tags
  by (auto simp: execute_def blockByTxIdInsertQuery_def transactionInsertQuery_def bound_def)

lemma tag_rows_and_tag_count_example:
  "tagsOf tx_two_tags = Some two_tags \<and> list_all isTag two_tags
   \<and> (\<exists>stmts s. makeTxImportQuery tx_two_tags block_5 = Inr stmts
         \<and> map (\<lambda>s. bound s ''tag_index'') (inserts_into ''tx_tag'' stmts)
             = [Some (JNum (Num 0)), Some (JNum (Num 1))]
         \<and> inserts_into ''transaction'' stmts = [s]
         \<and> bound s ''tag_count'' = Some (JNum (Num 2)))"
proof -
  have len: "length two_tags = 2" and ne: "two_tags \<noteq> []"
    by (simp_all add: two_tags_def)
  have upt: "[0..<2] = [0, Suc 0]"
    by (simp add: upt_rec)
  obtain stmts s where s: "makeTxImportQuery tx_two_tags block_5 = Inr stmts"
      "map (\<lambda>s. bound s ''tag_index'') (inserts_into ''tx_tag'' stmts)
               = map (\<lambda>i. Some (JNum (Num (int i)))) [0..<length two_tags]"
      "inserts_into ''transaction'' stmts = [s]"
      "bound s ''tag_count'' = (if two_tags = [] then None else Some (JNum (Num (int (length two_tags)))))"
    using tag_rows_and_tag_count [OF tagsOf_two_tags isTag_two_tags, of block_5] by blast
  have "map (\<lambda>s. bound s ''tag_index'') (inserts_into ''tx_tag'' stmts) = [Some (JNum (Num 0)), Some (JNum (Num 1))]"
    using s(2) len upt by simp
  moreover have "bound s ''tag_count'' = Some (JNum (Num 2))"
    using s(4) len ne by simp
  ultimately show ?thesis
    using tagsOf_two_tags isTag_two_tags s(1) s(3) by auto
qed

section \<open>Properties of the progress counter and of the start-up check\<close>

lemma numberOr0_Num: "\<exists>i. numberOr0 n = Num i"
  by (cases n) (simp_all add: numberOr0_def Number_isNaN_def)

lemma foldl_flight:
  "foldl (\<lambda>a b. js_add (numberOr0 a) (numberOr0 b)) (Num a) ns = Num (a + nanSafeSum ns)"
proof (induction ns arbitrary: a)
  case Nil
  then show ?case by (simp add: nanSafeSum_def)
next
  case (Cons n ns)
  show ?case
    using Cons.IH by (cases n) (simp_all add: nanSafeSum_def numberOr0_def Number_isNaN_def)
qed

lemma getTxsInFlight_two_or_more:
  "getTxsInFlight ((k1, n1) # (k2, n2) # rest) = Inr (Num (nanSafeSum (n1 # n2 # map snd rest)))"
proof -
  obtain i where i: "js_add (numberOr0 n1) (numberOr0 n2) = Num i"
      and s: "i = nanSafeSum [n1, n2]"
    by (cases n1; cases n2) (simp_all add: numberOr0_def Number_isNaN_def nanSafeSum_def)
  have "nanSafeSum (n1 # n2 # map snd rest) = i + nanSafeSum (map snd rest)"
    using s by (simp add: nanSafeSum_def)
  then show ?thesis
    using i by (simp add: getTxsInFlight_def Object_values_def foldl_flight)
qed

lemma getTxsInFlight_singleton: "getTxsInFlight [(k, n)] = Inr n"
  by (simp add: getTxsInFlight_def Object_values_def)

text \<open>
  Claim C9 says that \<open>getTxsInFlight()\<close> returns, for every state of the map, the sum of
  its values with \<open>NaN\<close> taken as \<open>0\<close>. The \<open>reduce\<close> has no initial value: on the empty
  map it throws a TypeError instead of returning \<open>0\<close>, and on a map with the single value
  \<open>NaN\<close> it returns that value without calling \<open>numberOr0\<close>. (With two or more values
  the claim holds: \<open>getTxsInFlight_two_or_more\<close> above.)
\<close>

theorem getTxsInFlight_empty_and_single_NaN:
  "getTxsInFlight [] = Inl (TypeError ''Reduce of empty array with no initial value'')
   \<and> getTxsInFlight [(''1'', NaN)] = Inr NaN
   \<and> nanSafeSum [] = 0 \<and> nanSafeSum [NaN] = 0"
  by (simp add: getTxsInFlight_def Object_values_def nanSafeSum_def)

theorem getTxsInFlight_empty_and_single_NaN_witness:
  "getTxsInFlight [] \<noteq> Inr (Num (nanSafeSum []))
   \<and> getTxsInFlight [(''1'', NaN)] \<noteq> Inr (Num (nanSafeSum [NaN]))"
  using getTxsInFlight_empty_and_single_NaN by simp

lemma parseInt_abc: "Number_parseInt ''abc'' = NaN"
  by (simp add: Number_parseInt_def is_space_def digit_of_def Let_def)

lemma parseInt_42: "Number_parseInt '' 42px'' = Num 42"
  by (simp add: Number_parseInt_def is_space_def digit_of_def Let_def)

lemma parseInt_hex: "Number_parseInt ''-0x1F'' = Num (- 31)"
  by (simp add: Number_parseInt_def is_space_def digit_of_def Let_def)

lemma never_exits: "checkDevelopmentSyncLength env = Running (developmentSyncLength env)"
proof -
  have "\<not> strict_eq_number v NaN" for v
  proof (cases v)
    case (JNum n)
    then show ?thesis by (cases n) simp_all
  qed simp_all
  then show ?thesis
    by (simp add: checkDevelopmentSyncLength_def)
qed

text \<open>
  Claim C2 says that the program exits with code 1 and a diagnostic when
  \<open>DEVELOPMENT_SYNC_LENGTH\<close> parses to \<open>NaN\<close>. The test is
  \<open>developmentSyncLength === Number.NaN\<close>, which no value satisfies, so the module never
  exits there (\<open>never_exits\<close> above). Evaluated on \<open>DEVELOPMENT_SYNC_LENGTH=abc\<close>: the value
  is \<open>NaN\<close>, the program keeps running, and \<open>startSync\<close>, for which \<open>NaN\<close> is falsy, syncs
  the whole list as if the variable were not set.
\<close>

theorem developmentSyncLength_NaN_keeps_running:
  "developmentSyncLength (Some ''abc'') = JNum NaN
   \<and> checkDevelopmentSyncLength (Some ''abc'') = Running (JNum NaN)
   \<and> truncateUnsynced (JNum NaN) unsyncedBlocks = unsyncedBlocks"
  by (simp add: never_exits developmentSyncLength_def env_value_def parseInt_abc truncateUnsynced_def)

theorem developmentSyncLength_NaN_keeps_running_witness:
  "checkDevelopmentSyncLength (Some ''abc'')
     \<noteq> Exit 1 ''Development sync range variable produced, illegal value NaN''
   \<and> truncateUnsynced (JNum NaN) [''h0'', ''h1''] = [''h0'', ''h1'']"
  using developmentSyncLength_NaN_keeps_running [of "[''h0'', ''h1'']"] by simp

section \<open>Properties of the query builder\<close>

lemma since_2024_uuid:
  "TimeUuid_fromString ''b4cc8000-a838-11ee-8000-000000000000''
     = Inr \<lparr>time_low = 3033300992, time_mid = 43064, time_hi_and_version = 4590\<rparr>"
  by (simp add: TimeUuid_fromString_def hex_number_def digit_of_def Let_def)

lemma since_2024_date:
  "TimeUuid_getDate \<lparr>time_low = 3033300992, time_mid = 43064, time_hi_and_version = 4590\<rparr>
     = 1704067200000"
  by (simp add: TimeUuid_getDate_def)

lemma Long_fromNumber_in_range:
  "- (2 ^ 63) < i \<Longrightarrow> i < 2 ^ 63 - 1 \<Longrightarrow> Long_fromNumber (Num i) = word_of_int i"
  by (simp add: Long_fromNumber_def)


lemma digit_of_less: "digit_of radix c = Some d \<Longrightarrow> d < radix"
  by (auto simp: digit_of_def Let_def split: if_splits option.splits)

lemma parse_digits_bound:
  "parse_digits 16 (Some a) s = Some v \<Longrightarrow> v < (a + 1) * 16 ^ length s"
proof (induction s arbitrary: a v)
  case Nil
  then show ?case by simp
next
  case (Cons c cs)
  show ?case
  proof (cases "digit_of 16 c")
    case None
    then have "v = a" using Cons.prems by simp
    moreover have "(1 :: nat) \<le> 16 ^ length (c # cs)"
      by simp
    then have "(a + 1) * 1 \<le> (a + 1) * 16 ^ length (c # cs)"
      by (rule mult_le_mono2)
    ultimately show ?thesis by simp
  next
    case (Some d)
    then have d: "d < 16" by (rule digit_of_less)
    have "parse_digits 16 (Some (16 * a + d)) cs = Some v"
      using Cons.prems Some by simp
    then have "v < (16 * a + d + 1) * 16 ^ length cs"
      by (rule Cons.IH)
    also have "\<dots> \<le> (16 * a + 16) * 16 ^ length cs"
      using d by (intro mult_le_mono1) simp
    also have "\<dots> = (a + 1) * 16 ^ length (c # cs)"
      by (simp add: algebra_simps)
    finally show ?thesis .
  qed
qed

lemma hex_number_bound: "hex_number s = Some v \<Longrightarrow> v < 16 ^ length s"
proof (cases s)
  case Nil
  assume "hex_number s = Some v"
  then show ?thesis using Nil by (simp add: hex_number_def)
next
  case (Cons c cs)
  assume h: "hex_number s = Some v"
  show ?thesis
  proof (cases "digit_of 16 c")
    case None
    then show ?thesis using h Cons by (simp add: hex_number_def split: if_splits)
  next
    case (Some d)
    then have d: "d < 16" by (rule digit_of_less)
    have "parse_digits 16 (Some d) cs = Some v"
      using h Cons Some by (simp add: hex_number_def split: if_splits)
    then have "v < (d + 1) * 16 ^ length cs"
      by (rule parse_digits_bound)
    also have "\<dots> \<le> 16 * 16 ^ length cs"
      using d by (intro mult_le_mono1) simp
    finally show ?thesis using Cons by simp
  qed
qed

lemma TimeUuid_fromString_fields:
  assumes "TimeUuid_fromString s = Inr u"
  shows "time_low u < 2 ^ 32" and "time_mid u < 2 ^ 16"
proof -
  have len: "length s = 36"
    using assms by (simp add: TimeUuid_fromString_def split: if_splits)
  have "hex_number (take 8 s) = Some (time_low u) \<and> hex_number (take 4 (drop 9 s)) = Some (time_mid u)"
    using assms
    by (auto simp: TimeUuid_fromString_def split: if_splits option.splits)
  then have "time_low u < 16 ^ length (take 8 s)" and "time_mid u < 16 ^ length (take 4 (drop 9 s))"
    using hex_number_bound by blast+
  then show "time_low u < 2 ^ 32" and "time_mid u < 2 ^ 16"
    using len by simp_all
qed

lemma TimeUuid_getDate_range:
  assumes "TimeUuid_fromString s = Inr u"
  shows "- (2 ^ 63) < TimeUuid_getDate u div 1000" and "TimeUuid_getDate u div 1000 < 2 ^ 63 - 1"
proof -
  have lo: "time_low u < 2 ^ 32" and mid: "time_mid u < 2 ^ 16"
    using TimeUuid_fromString_fields [OF assms] by simp_all
  have hi: "time_hi_and_version u mod 4096 < 4096"
    by simp
  define t where "t = (time_hi_and_version u mod 4096) * 2 ^ 48 + time_mid u * 2 ^ 32 + time_low u"
  have "t < 2 ^ 61"
    using lo mid hi unfolding t_def by simp
  then have "t div 10000 < 2 ^ 61"
    by (meson div_le_dividend le_less_trans)
  then have up: "int (t div 10000) < 2 ^ 61"
    by (metis of_nat_less_iff of_nat_numeral of_nat_power)
  have d: "TimeUuid_getDate u = int (t div 10000) - 12219292800000"
    by (simp add: TimeUuid_getDate_def t_def)
  have ge: "- 12219292800000 \<le> TimeUuid_getDate u" and lt: "TimeUuid_getDate u < 2 ^ 61"
    using up d by simp_all
  show "- (2 ^ 63) < TimeUuid_getDate u div 1000"
    using ge by simp
  show "TimeUuid_getDate u div 1000 < 2 ^ 63 - 1"
    using lt by simp
qed

lemma sinceTerm_unix_seconds:
  assumes "TimeUuid_fromString since = Inr u"
  shows "sinceTerm since =
           Inr (''block_timestamp < ?'', [JLong (Long_fromNumber (Num (TimeUuid_getDate u div 1000)))])"
    and "sint (Long_fromNumber (Num (TimeUuid_getDate u div 1000))) = TimeUuid_getDate u div 1000"
proof -
  show "sinceTerm since =
           Inr (''block_timestamp < ?'', [JLong (Long_fromNumber (Num (TimeUuid_getDate u div 1000)))])"
    using assms by (simp add: sinceTerm_def)
  show "sint (Long_fromNumber (Num (TimeUuid_getDate u div 1000))) = TimeUuid_getDate u div 1000"
    using TimeUuid_getDate_range [OF assms] by (intro sint_Long_fromNumber) simp_all
qed

lemma sinceTerm_2024:
  "sinceTerm ''b4cc8000-a838-11ee-8000-000000000000'' = Inr (''block_timestamp < ?'', [JLong 1704067200])"
proof -
  have "Long_fromNumber (Num (1704067200000 div 1000)) = 1704067200"
    by (simp add: Long_fromNumber_def)
  then show ?thesis
    using sinceTerm_unix_seconds(1) [OF since_2024_uuid] by (simp add: since_2024_date)
qed

lemma since_term_accepted:
  "cql_where q ''block_timestamp < ?'' [v]
     = Inr (q\<lparr>sel_wheres := sel_wheres q @ [(''block_timestamp < ?'', [v])]\<rparr>)"
  by (simp add: cql_where_def)

lemma then_where_mismatch:
  "count_list expr CHR ''?'' \<noteq> length vals \<Longrightarrow> \<exists>e. then_where r expr vals = Inl e"
  by (cases r) (simp_all add: then_where_def cql_where_def)

lemma then_where_Inl: "then_where (Inl e) expr vals = Inl e"
  by (simp add: then_where_def)

lemma generateTransactionQuery_throws: "\<exists>e. generateTransactionQuery ks qp = Inl e"
proof -
  have a: "\<exists>e. then_where r ''block_height >='' [v] = Inl e" for r v
    by (rule then_where_mismatch) simp
  have b: "\<exists>e. then_where (then_where r ''block_height >='' [v]) ''block_height <='' [w] = Inl e" for r v w
    using a [of r v] by (auto simp: then_where_Inl)
  show ?thesis
    unfolding generateTransactionQuery_def Let_def by (rule b)
qed

text \<open>
  Claim C8 says that for a query with a \<open>since\<close> parameter \<open>generateTransactionQuery\<close>
  emits the \<open>WHERE\<close> term \<open>block_timestamp < ?\<close> bound to the UUID's date in unix seconds.
  The conversion is as claimed (\<open>sinceTerm_unix_seconds\<close> above; \<open>1704067200\<close> for the
  time-based UUID of 2024-01-01), and the builder takes the term, but the function then
  calls \<open>cql.where('block_height >=', params.minHeight)\<close> and
  \<open>cql.where('block_height <=', params.maxHeight)\<close>, for every query, with a value and an
  expression that has no \<open>?\<close> (the term three lines above is written
  \<open>'block_height >= ?'\<close>). The builder rejects them, so the function throws and no query
  is emitted (\<open>generateTransactionQuery_throws\<close> above). Evaluated on the query of the
  spec's scenario:
\<close>

theorem since_query_throws:
  "sinceTerm ''b4cc8000-a838-11ee-8000-000000000000'' = Inr (''block_timestamp < ?'', [JLong 1704067200])
   \<and> generateTransactionQuery ''gateway'' since_2024
       = Inl (CqlBuilderError ''the number of values does not match the placeholders'')"
  by (simp add: sinceTerm_2024 generateTransactionQuery_def since_2024_def then_where_def
      cql_where_def Let_def)

theorem since_query_throws_witness:
  "\<not> (\<exists>q. generateTransactionQuery ''gateway'' since_2024 = Inr q
         \<and> (''block_timestamp < ?'', [JLong 1704067200]) \<in> set (sel_wheres q))"
  using since_query_throws by simp

section \<open>Properties of the doctor's scan\<close>

lemma digits_inj: "digits m = digits n \<Longrightarrow> m = n"
  by (metis decimal_digits)

lemma digits_hd: "digits n \<noteq> [] \<and> hd (digits n) \<noteq> CHR ''-''"
proof (induction n rule: digits.induct)
  case (1 n)
  show ?case
  proof (cases "n < 10")
    case True
    then show ?thesis
      by (simp add: digits.simps [of n] digit_char_def)
  next
    case False
    then show ?thesis
      using "1.IH" by (simp add: digits.simps [of n])
  qed
qed

lemma digits_not_minus: "digits n \<noteq> CHR ''-'' # s"
  using digits_hd [of n] by (cases "digits n") auto

lemma show_int_inj:
  assumes "show_int i = show_int j"
  shows "i = j"
proof (cases "i < 0")
  case True
  show ?thesis
  proof (cases "j < 0")
    case j: True
    have "digits (nat (- i)) = digits (nat (- j))"
      using assms True j by (simp add: show_int_def)
    then have "nat (- i) = nat (- j)"
      by (rule digits_inj)
    then show ?thesis
      using True j by simp
  next
    case j: False
    have "digits (nat j) = CHR ''-'' # digits (nat (- i))"
      using assms True j by (simp add: show_int_def)
    then show ?thesis
      by (simp add: digits_not_minus)
  qed
next
  case False
  show ?thesis
  proof (cases "j < 0")
    case j: True
    have "digits (nat i) = CHR ''-'' # digits (nat (- j))"
      using assms False j by (simp add: show_int_def)
    then show ?thesis
      by (simp add: digits_not_minus)
  next
    case j: False
    have "digits (nat i) = digits (nat j)"
      using assms False j by (simp add: show_int_def)
    then have "nat i = nat j"
      by (rule digits_inj)
    then show ?thesis
      using False j by simp
  qed
qed

lemma R_equals_string: "R_equals (JStr s) v = (v = JStr s)"
  by (cases v rule: R_type.cases) (auto simp: R_equals_def)

lemma R_equals_number:
  "R_equals (JNum (Num i)) v =
     (case v of JNum (Num j) \<Rightarrow> j = i | JLong l \<Rightarrow> sint l = i | _ \<Rightarrow> False)"
  by (cases v rule: R_type.cases) (auto simp: R_equals_def dest: show_int_inj)

lemma R_equals_number_Long: "R_equals (JNum (Num i)) (JLong l) = (sint l = i)"
  by (simp add: R_equals_number)

lemma heights_hashListEntries:
  "map height (Object_values (hashListEntries i hs)) = [i..<i + length hs]"
proof (induction hs arbitrary: i)
  case Nil
  then show ?case by (simp add: Object_values_def)
next
  case (Cons h hs)
  have "[i..<i + length (h # hs)] = i # [Suc i..<Suc i + length hs]"
    by (simp add: upt_rec)
  then show ?case
    using Cons.IH [of "i + 1"] by (simp add: Object_values_def)
qed

lemma values_hashListEntries:
  "Object_values (hashListEntries i hs)
     = map (\<lambda>j. \<lparr>height = i + j, hash = hs ! j\<rparr>) [0..<length hs]"
proof (induction hs arbitrary: i)
  case Nil
  then show ?case by (simp add: Object_values_def)
next
  case (Cons h hs)
  have "Object_values (hashListEntries i (h # hs))
      = \<lparr>height = i, hash = h\<rparr> # Object_values (hashListEntries (i + 1) hs)"
    by (simp add: Object_values_def)
  also have "\<dots> = \<lparr>height = i, hash = h\<rparr>
      # map (\<lambda>j. \<lparr>height = i + 1 + j, hash = hs ! j\<rparr>) [0..<length hs]"
    by (simp only: Cons.IH)
  also have "\<dots> = map (\<lambda>j. \<lparr>height = i + j, hash = (h # hs) ! j\<rparr>) [0..<length (h # hs)]"
    by (simp add: map_upt_Suc del: upt_Suc)
  finally show ?case .
qed

lemma findMissingBlocks_rejects: "findMissingBlocks hashList rows (Some e) = Inl e"
  by (simp add: findMissingBlocks_def)

lemma findMissingBlocks_sorted:
  "findMissingBlocks hashList rows None = Inr missing \<Longrightarrow> sorted (map height missing)"
  by (auto simp: findMissingBlocks_def)

lemma findMissingBlocks_number_height:
  "findMissingBlocks [''h0'', ''h1''] [[(''height'', JNum (Num 0)), (''indep_hash'', JStr ''h0'')]] None
     = Inr [\<lparr>height = 1, hash = ''h1''\<rparr>]"
  by (simp add: findMissingBlocks_def onRow_def lookup_def R_equals_def Object_values_def
      show_int_def digits.simps digit_char_def)

lemma findMissingBlocks_Long_height:
  "findMissingBlocks [''h0'', ''h1''] [[(''height'', JLong 0), (''indep_hash'', JStr ''h0'')]] None
     = Inr [\<lparr>height = 1, hash = ''h1''\<rparr>]"
  by (simp add: findMissingBlocks_def onRow_def lookup_def R_equals_def Object_values_def
      show_int_def digits.simps digit_char_def)

lemma findMissingBlocks_other_hash:
  "findMissingBlocks [''h0'', ''h1''] [[(''height'', JLong 0), (''indep_hash'', JStr ''g0'')]] None
     = Inr [\<lparr>height = 0, hash = ''h0''\<rparr>, \<lparr>height = 1, hash = ''h1''\<rparr>]"
  by (simp add: findMissingBlocks_def onRow_def lookup_def R_equals_def Object_values_def
      show_int_def digits.simps digit_char_def)

lemma onRow_filter:
  assumes "distinct (map fst obj)" and "\<forall>entry\<in>set obj. fst entry = digits (height (snd entry))"
  shows "onRow obj row = filter (\<lambda>entry. \<not> rowMatches (snd entry) row) obj"
proof -
  let ?key = "js_toString (lookup row ''height'')"
  have key_of_height: "?key = digits (height m)" if "rowMatches m row" for m
    using that by (auto simp: rowMatches_def show_int_def split: jsval.splits jsnum.splits)
  have key_of_match: "fst entry = ?key" if "entry \<in> set obj" "rowMatches (snd entry) row" for entry
    using that assms(2) key_of_height by auto
  show ?thesis
  proof (cases "map_of obj ?key")
    case None
    then have "?key \<notin> fst ` set obj"
      by (simp add: map_of_eq_None_iff)
    then have "\<forall>entry\<in>set obj. \<not> rowMatches (snd entry) row"
      using key_of_match by force
    then have "filter (\<lambda>entry. \<not> rowMatches (snd entry) row) obj = obj"
      by (simp add: filter_id_conv)
    then show ?thesis
      using None by (simp add: onRow_def)
  next
    case (Some m)
    then have mem: "(?key, m) \<in> set obj"
      by (rule map_of_SomeD)
    have uniq: "snd entry = m" if "entry \<in> set obj" "fst entry = ?key" for entry
    proof -
      have "(?key, snd entry) \<in> set obj"
        using that by (metis prod.collapse)
      with assms(1) show ?thesis
        using mem by (rule eq_key_imp_eq_value)
    qed
    have cond: "(R_equals (JStr (hash m)) (lookup row ''indep_hash'')
         \<and> R_equals (JNum (Num (int (height m)))) (lookup row ''height'')) = rowMatches m row"
      by (auto simp: R_equals_string R_equals_number rowMatches_def
          split: jsval.splits jsnum.splits)
    show ?thesis
    proof (cases "rowMatches m row")
      case True
      have "filter (\<lambda>entry. fst entry \<noteq> ?key) obj
          = filter (\<lambda>entry. \<not> rowMatches (snd entry) row) obj"
      proof (rule filter_cong [OF refl])
        fix entry assume e: "entry \<in> set obj"
        show "(fst entry \<noteq> ?key) = (\<not> rowMatches (snd entry) row)"
          using key_of_match [OF e] uniq [OF e] True by auto
      qed
      then show ?thesis
        using Some True cond by (simp add: onRow_def)
    next
      case False
      have "\<forall>entry\<in>set obj. \<not> rowMatches (snd entry) row"
        using key_of_match uniq False by blast
      then have "filter (\<lambda>entry. \<not> rowMatches (snd entry) row) obj = obj"
        by (simp add: filter_id_conv)
      then show ?thesis
        using Some False cond by (auto simp: onRow_def)
    qed
  qed
qed

lemma foldl_onRow_filter:
  assumes "distinct (map fst obj)" and "\<forall>entry\<in>set obj. fst entry = digits (height (snd entry))"
  shows "foldl onRow obj rows
       = filter (\<lambda>entry. \<not> (\<exists>row\<in>set rows. rowMatches (snd entry) row)) obj"
  using assms
proof (induction rows arbitrary: obj)
  case Nil
  then show ?case by simp
next
  case (Cons row rows)
  let ?obj = "filter (\<lambda>entry. \<not> rowMatches (snd entry) row) obj"
  have step: "onRow obj row = ?obj"
    using Cons.prems by (rule onRow_filter)
  have d: "distinct (map fst ?obj)"
    using Cons.prems(1) by (rule distinct_map_filter)
  have k: "\<forall>entry\<in>set ?obj. fst entry = digits (height (snd entry))"
    using Cons.prems(2) by simp
  have "foldl onRow ?obj rows
      = filter (\<lambda>entry. \<not> (\<exists>row\<in>set rows. rowMatches (snd entry) row)) ?obj"
    using d k by (rule Cons.IH)
  then show ?case
    using step by (auto intro: filter_cong)
qed

lemma keys_hashListEntries: "map fst (hashListEntries i hs) = map digits [i..<i + length hs]"
proof (induction hs arbitrary: i)
  case Nil
  then show ?case by simp
next
  case (Cons h hs)
  have "[i..<i + length (h # hs)] = i # [Suc i..<Suc i + length hs]"
    by (simp add: upt_rec)
  then show ?case
    using Cons.IH [of "i + 1"] by simp
qed

lemma distinct_keys_hashListEntries: "distinct (map fst (hashListEntries i hs))"
  by (simp add: keys_hashListEntries distinct_map inj_on_def digits_inj)

lemma key_is_height_hashListEntries:
  "\<forall>entry\<in>set (hashListEntries i hs). fst entry = digits (height (snd entry))"
  by (induction hs arbitrary: i) auto

lemma findMissingBlocks_resolves:
  "findMissingBlocks hashList rows None =
     Inr (filter (\<lambda>entry. \<not> (\<exists>row\<in>set rows. rowMatches entry row))
            (Object_values (hashListEntries 0 hashList)))"
proof -
  let ?keep = "\<lambda>entry. \<not> (\<exists>row\<in>set rows. rowMatches entry row)"
  have fold: "foldl onRow (hashListEntries 0 hashList) rows
      = filter (\<lambda>entry. ?keep (snd entry)) (hashListEntries 0 hashList)"
    using distinct_keys_hashListEntries key_is_height_hashListEntries by (rule foldl_onRow_filter)
  have vals: "Object_values (filter (\<lambda>entry. ?keep (snd entry)) (hashListEntries 0 hashList))
      = filter ?keep (Object_values (hashListEntries 0 hashList))"
    by (simp add: Object_values_def filter_map comp_def)
  have "sorted (map height (Object_values (hashListEntries 0 hashList)))"
    by (simp add: heights_hashListEntries)
  then have "sorted (map height (filter ?keep (Object_values (hashListEntries 0 hashList))))"
    by (rule sorted_filter)
  then have sorted: "sort_key height (filter ?keep (Object_values (hashListEntries 0 hashList)))
      = filter ?keep (Object_values (hashListEntries 0 hashList))"
    by (rule sort_key_id_if_sorted)
  have "findMissingBlocks hashList rows None
      = Inr (sort_key height (Object_values (foldl onRow (hashListEntries 0 hashList) rows)))"
    by (simp add: findMissingBlocks_def)
  also have "\<dots> = Inr (sort_key height (filter ?keep (Object_values (hashListEntries 0 hashList))))"
    by (simp only: fold vals)
  also have "\<dots> = Inr (filter ?keep (Object_values (hashListEntries 0 hashList)))"
    by (simp only: sorted)
  finally show ?thesis .
qed

text \<open>
  Claim C7: for every hash list and every list of streamed local rows, \<open>findMissingBlocks\<close>
  starts from the map that holds, under each index \<open>i\<close> of the hash list, the entry
  \<open>{height: i, hash: hashList[i]}\<close>; it removes an entry exactly when some local row matches
  it on both height and \<open>indep_hash\<close> (\<open>rowMatches\<close>; the row's height is the \<open>bigint\<close> column
  the driver delivers as a Long, which \<open>R.equals\<close> compares with the entry's number by its
  decimal string), and resolves with the entries left, in ascending order of height; when
  the stream ends with an error it rejects with the error's string.
\<close>

theorem findMissingBlocks_removes_matched_entries:
  "findMissingBlocks hashList rows None
     = Inr (filter (\<lambda>entry. \<not> (\<exists>row\<in>set rows. rowMatches entry row))
              (map (\<lambda>i. \<lparr>height = i, hash = hashList ! i\<rparr>) [0..<length hashList]))
   \<and> sorted (map height
        (filter (\<lambda>entry. \<not> (\<exists>row\<in>set rows. rowMatches entry row))
           (map (\<lambda>i. \<lparr>height = i, hash = hashList ! i\<rparr>) [0..<length hashList])))
   \<and> findMissingBlocks hashList rows (Some e) = Inl e"
proof -
  let ?keep = "\<lambda>entry. \<not> (\<exists>row\<in>set rows. rowMatches entry row)"
  let ?all = "map (\<lambda>i. \<lparr>height = i, hash = hashList ! i\<rparr>) [0..<length hashList]"
  have all: "Object_values (hashListEntries 0 hashList) = ?all"
    by (simp add: values_hashListEntries)
  have resolves: "findMissingBlocks hashList rows None = Inr (filter ?keep ?all)"
    using findMissingBlocks_resolves [of hashList rows] by (simp only: all)
  then have "sorted (map height (filter ?keep ?all))"
    by (rule findMissingBlocks_sorted)
  then show ?thesis
    using resolves by (simp add: findMissingBlocks_rejects)
qed

theorem findMissingBlocks_removes_matched_entries_witness:
  "findMissingBlocks [''h0'', ''h1'', ''h2'']
       [[(''height'', JLong 0), (''indep_hash'', JStr ''h0'')],
        [(''height'', JLong 1), (''indep_hash'', JStr ''g1'')]] None
     = Inr [\<lparr>height = 1, hash = ''h1''\<rparr>, \<lparr>height = 2, hash = ''h2''\<rparr>]
   \<and> findMissingBlocks [''h0'', ''h1'', ''h2'']
       [[(''height'', JLong 0), (''indep_hash'', JStr ''h0'')],
        [(''height'', JLong 1), (''indep_hash'', JStr ''g1'')]] (Some ''timeout'') = Inl ''timeout''"
  using findMissingBlocks_removes_matched_entries
    [of "[''h0'', ''h1'', ''h2'']"
        "[[(''height'', JLong 0), (''indep_hash'', JStr ''h0'')],
          [(''height'', JLong 1), (''indep_hash'', JStr ''g1'')]]" "''timeout''"]
  by (simp add: rowMatches_def lookup_def upt_rec)

section \<open>Properties of polling and fork recovery\<close>

lemma fork_pass_result:
  "startPolling_pass 5 fork_pass initial_state =
     (\<lparr>topHash = JStr ''h9_local'', gatewayHeight = JLong 9, isPollingStarted = True,
       isPaused = True, pendingScans = 1\<rparr>,
      [ImportBlock 9, StartDeleteScan 8], Completed)"
  by (simp add: startPolling_pass_def fork_pass_def initial_state_def getMaxHeightBlock_def
      lookup_def remote_chain_def numeral_eq_Suc Let_def)


lemma tip_pass_result:
  "startPolling_pass 5 tip_pass
     \<lparr>topHash = JStr ''h9_local'', gatewayHeight = JLong 9, isPollingStarted = True,
      isPaused = True, pendingScans = 1\<rparr> =
     (\<lparr>topHash = JStr ''h9x'', gatewayHeight = JLong 9, isPollingStarted = True,
       isPaused = True, pendingScans = 1\<rparr>,
      [ImportBlock 10, Sleep], Completed)"
  by (simp add: startPolling_pass_def tip_pass_def getMaxHeightBlock_def
      lookup_def remote_chain_def Let_def)

lemma resolveFork_reads_no_state:
  "snd (resolveFork fuel env b s) = snd (resolveFork fuel env b t)"
proof (induction fuel arbitrary: b s t)
  case 0
  then show ?case by simp
next
  case (Suc fuel)
  show ?case
  proof (cases "fetchBlockByHash env (previous_block b)")
    case None
    then show ?thesis by (simp add: Let_def)
  next
    case fetched: (Some pprevBlock)
    show ?thesis
    proof (cases "localHeight env (indep_hash pprevBlock)")
      case (Some h)
      with fetched show ?thesis by (simp add: Let_def)
    next
      case None
      have "snd (resolveFork fuel env pprevBlock (s\<lparr>isPaused := True\<rparr>))
          = snd (resolveFork fuel env pprevBlock (t\<lparr>isPaused := True\<rparr>))"
        by (rule Suc.IH)
      with fetched None show ?thesis
        by (auto simp: Let_def split: prod.splits)
    qed
  qed
qed

lemma startPolling_pass_ignores_isPaused:
  "snd (startPolling_pass fuel env (s\<lparr>isPaused := p\<rparr>)) = snd (startPolling_pass fuel env s)"
  by (auto simp: startPolling_pass_def Let_def split: option.splits sum.splits prod.splits
      intro!: resolveFork_reads_no_state)

text \<open>
  Claim C1 says that the polling loop is gated on \<open>isPaused\<close>, so that it dispatches no
  block import while fork recovery holds the flag. \<open>resolveFork\<close> sets the flag and the
  final callback of its deletion scan clears it, but nothing reads it: a pass of
  \<open>startPolling\<close> does the same whatever the flag is
  (\<open>startPolling_pass_ignores_isPaused\<close> above), and \<open>resolveFork\<close> returns as soon as the
  scan is started. In the fork of scenario 3, the first pass walks back to \<open>h8\<close>, starts the
  scan of the heights above \<open>8\<close> and leaves \<open>isPaused = true\<close>; the next pass, run before the
  scan has ended, dispatches \<open>importBlock(10)\<close> with \<open>isPaused\<close> still \<open>true\<close>.
\<close>

theorem tip_import_during_fork_recovery:
  "startPolling_pass 5 fork_pass initial_state =
     (\<lparr>topHash = JStr ''h9_local'', gatewayHeight = JLong 9, isPollingStarted = True,
       isPaused = True, pendingScans = 1\<rparr>,
      [ImportBlock 9, StartDeleteScan 8], Completed)
   \<and> startPolling_pass 5 tip_pass
       \<lparr>topHash = JStr ''h9_local'', gatewayHeight = JLong 9, isPollingStarted = True,
        isPaused = True, pendingScans = 1\<rparr> =
     (\<lparr>topHash = JStr ''h9x'', gatewayHeight = JLong 9, isPollingStarted = True,
       isPaused = True, pendingScans = 1\<rparr>,
      [ImportBlock 10, Sleep], Completed)
   \<and> run 5 [Poll fork_pass, Poll tip_pass] initial_state =
     (\<lparr>topHash = JStr ''h9x'', gatewayHeight = JLong 9, isPollingStarted = True,
       isPaused = True, pendingScans = 1\<rparr>,
      [ImportBlock 9, StartDeleteScan 8, ImportBlock 10, Sleep], Completed)"
  using fork_pass_result tip_pass_result by simp

theorem tip_import_during_fork_recovery_witness:
  "ImportBlock 10 \<in> set (fst (snd (run 5 [Poll fork_pass, Poll tip_pass] initial_state)))
   \<and> isPaused (fst (run 5 [Poll fork_pass, Poll tip_pass] initial_state))
   \<and> pendingScans (fst (run 5 [Poll fork_pass, Poll tip_pass] initial_state)) = 1"
  using tip_import_during_fork_recovery by simp

end
